theory Spec2Isabelle
  imports
    Main
    "HOL-Library.Sublist"
    "HOL-Library.Char_ord"
    "HOL-Library.List_Lexorder"
    "HOL-Library.Word"
begin

section \<open>Outcomes of a hook call\<close>

text \<open>
  Every hook of \<^verbatim>\<open>miapy/data/creation/callback.py\<close> returns nothing and acts only
  through the objects it can reach. A call is therefore modelled as a function from the
  state before the call to an outcome: either the call returned, or it raised an
  exception. Both carry the state the call left behind, since whatever a Python method
  mutated before it raised stays mutated.
\<close>

datatype ('e, 's) outcome = Return 's | Raise 'e 's

fun state_of :: "('e, 's) outcome \<Rightarrow> 's" where
  "state_of (Return s) = s"
| "state_of (Raise e s) = s"

fun returned :: "('e, 's) outcome \<Rightarrow> bool" where
  "returned (Return s) = True"
| "returned (Raise e s) = False"

section \<open>Callback and ComposeCallback\<close>

text \<open>
  An object with the six hooks of the class \<^verbatim>\<open>Callback\<close>. The type \<open>'p\<close> is the
  parameter bundle handed to a hook (in Python a reference to one dict), \<open>'s\<close> is all
  the state the hooks of the children can reach, \<open>'e\<close> the exceptions they raise.
  Children of a \<^verbatim>\<open>ComposeCallback\<close> may be instances of any subclass, so a child is
  any six functions of this shape.
\<close>

record ('p, 's, 'e) callback =
  on_start :: "'p \<Rightarrow> 's \<Rightarrow> ('e, 's) outcome"
  on_end :: "'p \<Rightarrow> 's \<Rightarrow> ('e, 's) outcome"
  on_subject_start :: "'p \<Rightarrow> 's \<Rightarrow> ('e, 's) outcome"
  on_subject_end :: "'p \<Rightarrow> 's \<Rightarrow> ('e, 's) outcome"
  on_gt_file :: "'p \<Rightarrow> 's \<Rightarrow> ('e, 's) outcome"
  on_image_file :: "'p \<Rightarrow> 's \<Rightarrow> ('e, 's) outcome"

text \<open>The class \<^verbatim>\<open>Callback\<close>: the body of each hook is \<^verbatim>\<open>pass\<close>.\<close>

definition Callback_on_start :: "'p \<Rightarrow> 's \<Rightarrow> ('e, 's) outcome" where
  "Callback_on_start params s = Return s"

definition Callback_on_end :: "'p \<Rightarrow> 's \<Rightarrow> ('e, 's) outcome" where
  "Callback_on_end params s = Return s"

definition Callback_on_subject_start :: "'p \<Rightarrow> 's \<Rightarrow> ('e, 's) outcome" where
  "Callback_on_subject_start params s = Return s"

definition Callback_on_subject_end :: "'p \<Rightarrow> 's \<Rightarrow> ('e, 's) outcome" where
  "Callback_on_subject_end params s = Return s"

definition Callback_on_gt_file :: "'p \<Rightarrow> 's \<Rightarrow> ('e, 's) outcome" where
  "Callback_on_gt_file params s = Return s"

definition Callback_on_image_file :: "'p \<Rightarrow> 's \<Rightarrow> ('e, 's) outcome" where
  "Callback_on_image_file params s = Return s"

definition Callback :: "('p, 's, 'e) callback" where
  "Callback =
     \<lparr> on_start = Callback_on_start, on_end = Callback_on_end,
       on_subject_start = Callback_on_subject_start,
       on_subject_end = Callback_on_subject_end,
       on_gt_file = Callback_on_gt_file, on_image_file = Callback_on_image_file \<rparr>"

text \<open>
  The loop \<^verbatim>\<open>for c in self.callbacks: c.hook(params)\<close>, shared by the six hooks of
  \<^verbatim>\<open>ComposeCallback\<close>. The argument \<open>hook\<close> selects the method called on each child.
  An exception raised by a child is not caught: it leaves the loop.
\<close>

fun for_each_callback ::
  "(('p, 's, 'e) callback \<Rightarrow> 'p \<Rightarrow> 's \<Rightarrow> ('e, 's) outcome) \<Rightarrow>
   ('p, 's, 'e) callback list \<Rightarrow> 'p \<Rightarrow> 's \<Rightarrow> ('e, 's) outcome" where
  "for_each_callback hook [] params s = Return s"
| "for_each_callback hook (c # cs) params s =
     (case hook c params s of
        Raise e s' \<Rightarrow> Raise e s'
      | Return s' \<Rightarrow> for_each_callback hook cs params s')"

definition ComposeCallback_on_start ::
  "('p, 's, 'e) callback list \<Rightarrow> 'p \<Rightarrow> 's \<Rightarrow> ('e, 's) outcome" where
  "ComposeCallback_on_start callbacks params s =
     for_each_callback on_start callbacks params s"

definition ComposeCallback_on_end ::
  "('p, 's, 'e) callback list \<Rightarrow> 'p \<Rightarrow> 's \<Rightarrow> ('e, 's) outcome" where
  "ComposeCallback_on_end callbacks params s =
     for_each_callback on_end callbacks params s"

definition ComposeCallback_on_subject_start ::
  "('p, 's, 'e) callback list \<Rightarrow> 'p \<Rightarrow> 's \<Rightarrow> ('e, 's) outcome" where
  "ComposeCallback_on_subject_start callbacks params s =
     for_each_callback on_subject_start callbacks params s"

definition ComposeCallback_on_subject_end ::
  "('p, 's, 'e) callback list \<Rightarrow> 'p \<Rightarrow> 's \<Rightarrow> ('e, 's) outcome" where
  "ComposeCallback_on_subject_end callbacks params s =
     for_each_callback on_subject_end callbacks params s"

definition ComposeCallback_on_gt_file ::
  "('p, 's, 'e) callback list \<Rightarrow> 'p \<Rightarrow> 's \<Rightarrow> ('e, 's) outcome" where
  "ComposeCallback_on_gt_file callbacks params s =
     for_each_callback on_gt_file callbacks params s"

definition ComposeCallback_on_image_file ::
  "('p, 's, 'e) callback list \<Rightarrow> 'p \<Rightarrow> 's \<Rightarrow> ('e, 's) outcome" where
  "ComposeCallback_on_image_file callbacks params s =
     for_each_callback on_image_file callbacks params s"

definition ComposeCallback :: "('p, 's, 'e) callback list \<Rightarrow> ('p, 's, 'e) callback" where
  "ComposeCallback callbacks =
     \<lparr> on_start = ComposeCallback_on_start callbacks,
       on_end = ComposeCallback_on_end callbacks,
       on_subject_start = ComposeCallback_on_subject_start callbacks,
       on_subject_end = ComposeCallback_on_subject_end callbacks,
       on_gt_file = ComposeCallback_on_gt_file callbacks,
       on_image_file = ComposeCallback_on_image_file callbacks \<rparr>"

section \<open>Values, exceptions and the writer\<close>

text \<open>The exceptions that the code of this file, and the library calls it makes, raise.\<close>

datatype py_error = KeyError string | ValueError string | IndexError string

text \<open>
  A Python float is a dyadic rational \<open>mantissa * 2 ^ exponent\<close>. The callbacks pass
  floats on untouched, so no arithmetic on them is modelled.
\<close>

datatype py_float = Float (mantissa: int) (exponent: int)

datatype ndarray = NdArray (shape: "nat list") (data: "py_float list")

text \<open>
  The element types passed to the writer: \<^verbatim>\<open>np.uint8\<close>, \<^verbatim>\<open>np.float\<close> (an alias of the
  builtin \<^verbatim>\<open>float\<close>), the builtin type \<^verbatim>\<open>str\<close>, and a type named by a string such as
  \<^verbatim>\<open>'str'\<close>.
\<close>

datatype dtype = np_uint8 | np_float | builtin_str | dtype_name string

text \<open>The values handed to the writer: arrays, strings, lists of strings and tuples.\<close>

datatype py_value =
    VArray ndarray
  | VStr string
  | VStrList "string list"
  | VIntTuple "int list"
  | VFloatTuple "py_float list"

text \<open>
  Modelled from the spec: \<^verbatim>\<open>miapy.data.indexexpression.IndexExpression\<close> is not among the
  sources. The spec calls it an addressing value identifying a sub-region of a reserved
  array, on a single axis or on several. The model keeps the two constructor arguments:
  the positions and, when given, the axes they are on. A single integer \<open>i\<close> passed as
  \<open>indexing\<close> is the one-element list \<open>[i]\<close>.
\<close>

datatype index_expression = IndexExpression (indexing: "int list") (axis: "nat list option")

text \<open>
  Modelled from the spec: the axis each position of an index expression is on. Without
  \<open>axis\<close> the positions are on the leading axes, in order (a single position targets a
  row).
\<close>

definition axes_of :: "index_expression \<Rightarrow> nat list" where
  "axes_of ie = (case axis ie of None \<Rightarrow> [0 ..< length (indexing ie)] | Some a \<Rightarrow> a)"

text \<open>
  Modelled from the spec: an index expression is within the bounds of a reserved shape
  when each of its positions is on an axis of the shape and lies in \<open>0 ..< extent\<close> of
  that axis.
\<close>

definition within_bounds :: "index_expression \<Rightarrow> nat list \<Rightarrow> bool" where
  "within_bounds ie shp \<longleftrightarrow>
     length (axes_of ie) = length (indexing ie) \<and>
     list_all (\<lambda>(a, i). a < length shp \<and> 0 \<le> i \<and> i < int (shp ! a))
       (zip (axes_of ie) (indexing ie))"

text \<open>
  Modelled from the spec: the writer (\<^verbatim>\<open>miapy/data/creation/writer.py\<close>) is not among the
  sources. The spec gives it three operations, \<^verbatim>\<open>reserve(key, shape, dtype)\<close>,
  \<^verbatim>\<open>fill(key, value, index_expression)\<close> and \<^verbatim>\<open>write(key, value, dtype)\<close>, and no error
  condition. The model of a writer is the list of the calls made on it, oldest first;
  the \<open>dtype\<close> of a \<^verbatim>\<open>write\<close> is \<open>None\<close> when the caller leaves it out.
\<close>

datatype writer_call =
    Reserve string "nat list" dtype
  | Fill string py_value index_expression
  | Write string py_value "dtype option"

type_synonym writer = "writer_call list"

definition writer_reserve :: "string \<Rightarrow> nat list \<Rightarrow> dtype \<Rightarrow> writer \<Rightarrow> writer" where
  "writer_reserve key shp dt w = w @ [Reserve key shp dt]"

definition writer_fill :: "string \<Rightarrow> py_value \<Rightarrow> index_expression \<Rightarrow> writer \<Rightarrow> writer" where
  "writer_fill key v ie w = w @ [Fill key v ie]"

definition writer_write :: "string \<Rightarrow> py_value \<Rightarrow> dtype option \<Rightarrow> writer \<Rightarrow> writer" where
  "writer_write key v dt w = w @ [Write key v dt]"

section \<open>The parameter bundle\<close>

text \<open>
  Modelled from the spec: the subject descriptor (\<^verbatim>\<open>SubjectFile\<close>) is not among the
  sources. The code calls \<^verbatim>\<open>get_sequences()\<close>, a dict from sequence name to file path, and
  \<^verbatim>\<open>get_gts()\<close>, such a dict or \<^verbatim>\<open>None\<close>. The dicts are association lists in insertion
  order, the order of \<^verbatim>\<open>.values()\<close>.
\<close>

record SubjectFile =
  get_sequences :: "(string \<times> string) list"
  get_gts :: "(string \<times> string) list option"

text \<open>
  A SimpleITK image as far as the code reads it, and any other object that may sit under
  the key \<^verbatim>\<open>raw_image\<close>, described by the name of its type.
\<close>

record sitk_Image =
  GetSize :: "int list"
  GetDirection :: "py_float list"
  GetSpacing :: "py_float list"

datatype py_object = Image sitk_Image | Other string

text \<open>
  The bundle is a dict. Its recognised keys, with the types of the values the driver puts
  under them (section 3 of the spec), are the fields of the record; a key that is not in
  the dict is \<open>None\<close>, and reading it raises \<^verbatim>\<open>KeyError\<close>. The key \<^verbatim>\<open>file\<close> is the
  field \<open>file'\<close>.
\<close>

record params =
  subject_files :: "SubjectFile list option"
  subject_index :: "int option"
  subject :: "string option"
  images :: "ndarray option"
  labels :: "ndarray option"
  has_gt :: "bool option"
  raw_image :: "py_object option"
  file' :: "string option"
  sequence_index :: "int option"
  gt_index :: "int option"
  sequence_names :: "string list option"
  gt_names :: "string list option"

definition empty_params :: params where
  "empty_params =
     \<lparr> subject_files = None, subject_index = None, subject = None, images = None,
       labels = None, has_gt = None, raw_image = None, file' = None,
       sequence_index = None, gt_index = None, sequence_names = None, gt_names = None \<rparr>"

section \<open>Decimal strings\<close>

text \<open>
  \<^verbatim>\<open>str(n)\<close> of a non-negative integer: its decimal digits, most significant first, with
  no leading zero except for \<open>0\<close> itself.
\<close>

definition digit_char :: "nat \<Rightarrow> char" where
  "digit_char d = ''0123456789'' ! d"

fun str_nat :: "nat \<Rightarrow> string" where
  "str_nat n =
     (if n < 10 then [digit_char n] else str_nat (n div 10) @ [digit_char (n mod 10)])"

declare str_nat.simps [simp del]

text \<open>
  \<^verbatim>\<open>'{:0W}'.format(i)\<close> of an integer \<open>i\<close>: the sign if \<open>i\<close> is negative, then zeros, then the
  digits of \<open>|i|\<close>, the zeros filling the string up to \<open>W\<close> characters; a number that
  needs more than \<open>W\<close> characters is not cut.
\<close>

definition format_zero_padded :: "nat \<Rightarrow> int \<Rightarrow> string" where
  "format_zero_padded width i =
     (let sign = (if i < 0 then ''-'' else []);
          digits = str_nat (nat \<bar>i\<bar>)
      in sign @ replicate (width - (length sign + length digits)) (CHR ''0'') @ digits)"

section \<open>WriteDataCallback\<close>

text \<open>
  The callbacks that write hold a reference to the writer in \<^verbatim>\<open>self.writer\<close>. The state
  such a callback can reach is its own fields and that writer.
\<close>

record writer_holder =
  writer :: writer

definition SEQ_PATH :: string where "SEQ_PATH = ''data/sequences''"

definition GT_PATH :: string where "GT_PATH = ''data/gts''"

text \<open>
  The two local variables of \<^verbatim>\<open>on_subject_end\<close> that make the key:
  \<^verbatim>\<open>max_digits = len(str(len(subject_files)))\<close> and
  \<^verbatim>\<open>index_str = '{{:0{}}}'.format(max_digits).format(subject_index)\<close>, for the list
  \<open>sfs\<close> under the key \<^verbatim>\<open>subject_files\<close> and the integer \<open>si\<close> under \<^verbatim>\<open>subject_index\<close>.
\<close>

definition max_digits :: "'a list \<Rightarrow> nat" where
  "max_digits sfs = length (str_nat (length sfs))"

definition index_str :: "'a list \<Rightarrow> int \<Rightarrow> string" where
  "index_str sfs si = format_zero_padded (max_digits sfs) si"

definition WriteDataCallback_on_subject_end ::
  "params \<Rightarrow> writer_holder \<Rightarrow> (py_error, writer_holder) outcome" where
  "WriteDataCallback_on_subject_end params self =
     (case subject_files params of
        None \<Rightarrow> Raise (KeyError ''subject_files'') self
      | Some sfs \<Rightarrow>
     (case subject_index params of
        None \<Rightarrow> Raise (KeyError ''subject_index'') self
      | Some si \<Rightarrow>
     (case images params of
        None \<Rightarrow> Raise (KeyError ''images'') self
      | Some np_images \<Rightarrow>
     (let self1 = self\<lparr>writer :=
            writer_write (SEQ_PATH @ ''/'' @ index_str sfs si) (VArray np_images) None
              (writer self)\<rparr>
      in case has_gt params of
        None \<Rightarrow> Raise (KeyError ''has_gt'') self1
      | Some gt \<Rightarrow>
          if gt then
            (case labels params of
               None \<Rightarrow> Raise (KeyError ''labels'') self1
             | Some np_gts \<Rightarrow>
                 Return (self1\<lparr>writer :=
                   writer_write (GT_PATH @ ''/'' @ index_str sfs si) (VArray np_gts) None
                     (writer self1)\<rparr>))
          else Return self1))))"

section \<open>WriteSubjectCallback\<close>

definition SUBJECT :: string where "SUBJECT = ''meta/subjects''"

definition WriteSubjectCallback_on_start ::
  "params \<Rightarrow> writer_holder \<Rightarrow> (py_error, writer_holder) outcome" where
  "WriteSubjectCallback_on_start params self =
     (case subject_files params of
        None \<Rightarrow> Raise (KeyError ''subject_files'') self
      | Some sfs \<Rightarrow>
          (let subject_count = length sfs
           in Return (self\<lparr>writer :=
                writer_reserve SUBJECT [subject_count] builtin_str (writer self)\<rparr>)))"

definition WriteSubjectCallback_on_subject_start ::
  "params \<Rightarrow> writer_holder \<Rightarrow> (py_error, writer_holder) outcome" where
  "WriteSubjectCallback_on_subject_start params self =
     (case subject params of
        None \<Rightarrow> Raise (KeyError ''subject'') self
      | Some subj \<Rightarrow>
     (case subject_index params of
        None \<Rightarrow> Raise (KeyError ''subject_index'') self
      | Some si \<Rightarrow>
          Return (self\<lparr>writer :=
            writer_fill SUBJECT (VStr subj) (IndexExpression [si] None) (writer self)\<rparr>)))"

section \<open>WriteImageInformationCallback\<close>

definition SHAPE :: string where "SHAPE = ''meta/shapes''"

definition DIRECTION :: string where "DIRECTION = ''meta/directions''"

definition SPACING :: string where "SPACING = ''meta/spacing''"

record WriteImageInformationCallback = writer_holder +
  prev_subject_index :: "int option"

text \<open>The constructor: \<^verbatim>\<open>self.writer = writer; self.prev_subject_index = None\<close>.\<close>

definition WriteImageInformationCallback_init :: "writer \<Rightarrow> WriteImageInformationCallback" where
  "WriteImageInformationCallback_init w = \<lparr> writer = w, prev_subject_index = None \<rparr>"

definition WriteImageInformationCallback_on_start ::
  "params \<Rightarrow> WriteImageInformationCallback \<Rightarrow> (py_error, WriteImageInformationCallback) outcome"
  where
  "WriteImageInformationCallback_on_start params self =
     (case subject_files params of
        None \<Rightarrow> Raise (KeyError ''subject_files'') self
      | Some sfs \<Rightarrow>
          (let subject_count = length sfs;
               self1 = self\<lparr>writer :=
                 writer_reserve SHAPE [subject_count, 3] np_uint8 (writer self)\<rparr>;
               self2 = self1\<lparr>writer :=
                 writer_reserve DIRECTION [subject_count, 9] np_float (writer self1)\<rparr>;
               self3 = self2\<lparr>writer :=
                 writer_reserve SPACING [subject_count, 3] np_float (writer self2)\<rparr>
           in Return self3))"

text \<open>
  The message of the \<^verbatim>\<open>ValueError\<close>:
  \<^verbatim>\<open>"'raw_image' must be of type '{}'".format(sitk.Image.__name__)\<close>.
\<close>

definition raw_image_message :: string where
  "raw_image_message = CHR 0x27 # ''raw_image' must be of type 'Image'' @ [CHR 0x27]"

definition WriteImageInformationCallback_on_image_file ::
  "params \<Rightarrow> WriteImageInformationCallback \<Rightarrow> (py_error, WriteImageInformationCallback) outcome"
  where
  "WriteImageInformationCallback_on_image_file params self =
     (case subject_index params of
        None \<Rightarrow> Raise (KeyError ''subject_index'') self
      | Some si \<Rightarrow>
          if prev_subject_index self = Some si then Return self
          else
     (case raw_image params of
        None \<Rightarrow> Raise (KeyError ''raw_image'') self
      | Some (Other type_name) \<Rightarrow> Raise (ValueError raw_image_message) self
      | Some (Image img) \<Rightarrow>
          (let self1 = self\<lparr>writer :=
                 writer_fill SHAPE (VIntTuple (GetSize img)) (IndexExpression [si] None)
                   (writer self)\<rparr>;
               self2 = self1\<lparr>writer :=
                 writer_fill DIRECTION (VFloatTuple (GetDirection img))
                   (IndexExpression [si] None) (writer self1)\<rparr>;
               self3 = self2\<lparr>writer :=
                 writer_fill SPACING (VFloatTuple (GetSpacing img))
                   (IndexExpression [si] None) (writer self2)\<rparr>
           in Return (self3\<lparr>prev_subject_index := Some si\<rparr>))))"

section \<open>WriteNamesCallback\<close>

definition SEQ_NAMES :: string where "SEQ_NAMES = ''meta/sequence_names''"

definition GT_NAMES :: string where "GT_NAMES = ''meta/gt_names''"

definition WriteNamesCallback_on_start ::
  "params \<Rightarrow> writer_holder \<Rightarrow> (py_error, writer_holder) outcome" where
  "WriteNamesCallback_on_start params self =
     (case sequence_names params of
        None \<Rightarrow> Raise (KeyError ''sequence_names'') self
      | Some names \<Rightarrow>
     (let self1 = self\<lparr>writer :=
            writer_write SEQ_NAMES (VStrList names) (Some (dtype_name ''str'')) (writer self)\<rparr>
      in case has_gt params of
        None \<Rightarrow> Raise (KeyError ''has_gt'') self1
      | Some gt \<Rightarrow>
          if gt then
            (case gt_names params of
               None \<Rightarrow> Raise (KeyError ''gt_names'') self1
             | Some gnames \<Rightarrow>
                 Return (self1\<lparr>writer :=
                   writer_write GT_NAMES (VStrList gnames) (Some (dtype_name ''str''))
                     (writer self1)\<rparr>))
          else Return self1))"

section \<open>The functions of os.path that the code calls (posixpath)\<close>

text \<open>
  \<^verbatim>\<open>os.path\<close> is the module \<^verbatim>\<open>posixpath\<close> on a POSIX system, which is the system the
  paths of the spec (\<^verbatim>\<open>/a/b/c.txt\<close>) belong to. The definitions follow its functions
  \<^verbatim>\<open>commonpath\<close>, \<^verbatim>\<open>relpath\<close>, \<^verbatim>\<open>abspath\<close>, \<^verbatim>\<open>normpath\<close> and \<^verbatim>\<open>join\<close>, and
  \<^verbatim>\<open>genericpath.commonprefix\<close>, statement by statement.
\<close>

definition sep :: string where "sep = ''/''"

definition curdir :: string where "curdir = ''.''"

definition pardir :: string where "pardir = ''..''"

text \<open>\<^verbatim>\<open>s.split('/')\<close>: the pieces between the separators, empty pieces included.\<close>

fun split_sep :: "string \<Rightarrow> string list" where
  "split_sep [] = [[]]"
| "split_sep (c # cs) =
     (if c = CHR ''/'' then [] # split_sep cs
      else (case split_sep cs of [] \<Rightarrow> [[c]] | x # xs \<Rightarrow> (c # x) # xs))"

text \<open>\<^verbatim>\<open>'/'.join(parts)\<close>.\<close>

fun join_sep :: "string list \<Rightarrow> string" where
  "join_sep [] = []"
| "join_sep [x] = x"
| "join_sep (x # y # ys) = x @ sep @ join_sep (y # ys)"

definition startswith :: "string \<Rightarrow> string \<Rightarrow> bool" where
  "startswith s pre \<longleftrightarrow> take (length pre) s = pre"

definition endswith :: "string \<Rightarrow> string \<Rightarrow> bool" where
  "endswith s suf \<longleftrightarrow> length suf \<le> length s \<and> drop (length s - length suf) s = suf"

text \<open>
  \<^verbatim>\<open>min\<close> and \<^verbatim>\<open>max\<close> of a sequence with first element \<open>x\<close> and rest \<open>xs\<close>. Python
  compares lists, and strings, lexicographically; that is the order of the type classes
  on lists and characters used here. Both keep the earlier element when two are equal.
\<close>

definition py_min :: "'a::linorder \<Rightarrow> 'a list \<Rightarrow> 'a" where
  "py_min x xs = foldl (\<lambda>m y. if y < m then y else m) x xs"

definition py_max :: "'a::linorder \<Rightarrow> 'a list \<Rightarrow> 'a" where
  "py_max x xs = foldl (\<lambda>m y. if m < y then y else m) x xs"

text \<open>
  The loop of \<^verbatim>\<open>commonpath\<close> and \<^verbatim>\<open>commonprefix\<close>:
  \<^verbatim>\<open>for i, c in enumerate(s1): if c != s2[i]: return s1[:i]\<close>, and \<^verbatim>\<open>s1\<close> when the loop
  ends. Reading \<^verbatim>\<open>s2[i]\<close> beyond the end of \<^verbatim>\<open>s2\<close> raises \<^verbatim>\<open>IndexError\<close>.
\<close>

fun common_loop :: "'a list \<Rightarrow> 'a list \<Rightarrow> py_error + 'a list" where
  "common_loop [] s2 = Inr []"
| "common_loop (c # cs) [] = Inl (IndexError ''list index out of range'')"
| "common_loop (c # cs) (d # ds) =
     (if c \<noteq> d then Inr []
      else (case common_loop cs ds of Inl e \<Rightarrow> Inl e | Inr pre \<Rightarrow> Inr (c # pre)))"

definition commonprefix :: "'a::linorder list list \<Rightarrow> py_error + 'a list" where
  "commonprefix m =
     (case m of
        [] \<Rightarrow> Inr []
      | x # xs \<Rightarrow> common_loop (py_min x xs) (py_max x xs))"

text \<open>
  The components \<^verbatim>\<open>commonpath\<close> compares:
  \<^verbatim>\<open>[c for c in path.split(sep) if c and c != curdir]\<close>.
\<close>

definition path_components :: "string \<Rightarrow> string list" where
  "path_components path = filter (\<lambda>c. c \<noteq> [] \<and> c \<noteq> curdir) (split_sep path)"

definition commonpath :: "string list \<Rightarrow> py_error + string" where
  "commonpath paths =
     (case paths of
        [] \<Rightarrow> Inl (ValueError ''commonpath() arg is an empty sequence'')
      | p # ps \<Rightarrow>
          (case remdups (map (\<lambda>q. take 1 q = sep) paths) of
             [isabs] \<Rightarrow>
               (let s1 = py_min (path_components p) (map path_components ps);
                    s2 = py_max (path_components p) (map path_components ps)
                in case common_loop s1 s2 of
                     Inl e \<Rightarrow> Inl e
                   | Inr common \<Rightarrow> Inr ((if isabs then sep else []) @ join_sep common))
           | _ \<Rightarrow> Inl (ValueError ''Can't mix absolute and relative paths'')))"

text \<open>\<^verbatim>\<open>join(a, *p)\<close>.\<close>

fun join_loop :: "string \<Rightarrow> string list \<Rightarrow> string" where
  "join_loop path [] = path"
| "join_loop path (b # bs) =
     join_loop
       (if startswith b sep then b
        else if path = [] \<or> endswith path sep then path @ b
        else path @ sep @ b) bs"

definition join :: "string \<Rightarrow> string list \<Rightarrow> string" where
  "join a p = join_loop a p"

text \<open>
  The loop of \<^verbatim>\<open>normpath\<close> over the pieces of the path; \<open>initial_slashes\<close> is 0, 1
  or 2.
\<close>

fun normpath_loop :: "nat \<Rightarrow> string list \<Rightarrow> string list \<Rightarrow> string list" where
  "normpath_loop initial_slashes [] new_comps = new_comps"
| "normpath_loop initial_slashes (cmpt # comps) new_comps =
     (if cmpt = [] \<or> cmpt = curdir then normpath_loop initial_slashes comps new_comps
      else if cmpt \<noteq> pardir \<or> (initial_slashes = 0 \<and> new_comps = []) \<or>
              (new_comps \<noteq> [] \<and> last new_comps = pardir)
        then normpath_loop initial_slashes comps (new_comps @ [cmpt])
      else if new_comps \<noteq> [] then normpath_loop initial_slashes comps (butlast new_comps)
      else normpath_loop initial_slashes comps new_comps)"

definition normpath :: "string \<Rightarrow> string" where
  "normpath path =
     (if path = [] then curdir
      else
        (let initial_slashes =
               (if startswith path sep then
                  (if startswith path (sep @ sep) \<and> \<not> startswith path (sep @ sep @ sep)
                   then 2 else 1)
                else 0);
             comps = normpath_loop initial_slashes (split_sep path) [];
             path1 = join_sep comps;
             path2 = (if initial_slashes \<noteq> 0
                      then concat (replicate initial_slashes sep) @ path1 else path1)
         in if path2 = [] then curdir else path2))"

text \<open>
  \<^verbatim>\<open>abspath(path)\<close>; \<open>cwd\<close> is what \<^verbatim>\<open>os.getcwd()\<close> returns, the working directory of the
  process.
\<close>

definition abspath :: "string \<Rightarrow> string \<Rightarrow> string" where
  "abspath cwd path =
     normpath (if \<not> startswith path sep then join cwd [path] else path)"

text \<open>\<^verbatim>\<open>relpath(path, start)\<close>; \<open>start\<close> is \<open>None\<close> for the Python value \<^verbatim>\<open>None\<close>.\<close>

definition relpath :: "string \<Rightarrow> string \<Rightarrow> string option \<Rightarrow> py_error + string" where
  "relpath cwd path start =
     (if path = [] then Inl (ValueError ''no path specified'')
      else
        (let start1 = (case start of None \<Rightarrow> curdir | Some s \<Rightarrow> s);
             start_list = filter (\<lambda>x. x \<noteq> []) (split_sep (abspath cwd start1));
             path_list = filter (\<lambda>x. x \<noteq> []) (split_sep (abspath cwd path))
         in case commonprefix [start_list, path_list] of
              Inl e \<Rightarrow> Inl e
            | Inr pre \<Rightarrow>
                (let i = length pre;
                     rel_list = replicate (length start_list - i) pardir @ drop i path_list
                 in case rel_list of
                      [] \<Rightarrow> Inr curdir
                    | a # p \<Rightarrow> Inr (join a p))))"

section \<open>WriteFilesCallback\<close>

definition SEQ_FILES :: string where "SEQ_FILES = ''meta/sequence_files''"

definition GT_FILES :: string where "GT_FILES = ''meta/gt_files''"

definition FILE_ROOT :: string where "FILE_ROOT = ''meta/file_root''"

record WriteFilesCallback = writer_holder +
  file_root :: "string option"

text \<open>The constructor: \<^verbatim>\<open>self.writer = writer; self.file_root = None\<close>.\<close>

definition WriteFilesCallback_init :: "writer \<Rightarrow> WriteFilesCallback" where
  "WriteFilesCallback_init w = \<lparr> writer = w, file_root = None \<rparr>"

text \<open>
  The files of one subject, \<^verbatim>\<open>all_files\<close> in \<^verbatim>\<open>get_subject_common\<close>: the values of the
  sequences, then those of the ground truths when \<^verbatim>\<open>get_gts()\<close> is not \<^verbatim>\<open>None\<close>.
\<close>

definition all_files :: "SubjectFile \<Rightarrow> string list" where
  "all_files subject_file =
     map snd (get_sequences subject_file) @
     (case get_gts subject_file of None \<Rightarrow> [] | Some gts \<Rightarrow> map snd gts)"

definition get_subject_common :: "SubjectFile \<Rightarrow> py_error + string" where
  "get_subject_common subject_file = commonpath (all_files subject_file)"

text \<open>
  The generator \<^verbatim>\<open>(get_subject_common(sf) for sf in subject_files)\<close> as \<^verbatim>\<open>commonpath\<close>
  consumes it: the first call that raises ends it.
\<close>

fun map_raising :: "('a \<Rightarrow> 'e + 'b) \<Rightarrow> 'a list \<Rightarrow> 'e + 'b list" where
  "map_raising f [] = Inr []"
| "map_raising f (x # xs) =
     (case f x of
        Inl e \<Rightarrow> Inl e
      | Inr y \<Rightarrow> (case map_raising f xs of Inl e \<Rightarrow> Inl e | Inr ys \<Rightarrow> Inr (y # ys)))"

text \<open>
  The static method \<^verbatim>\<open>_get_common_path\<close>. It hands \<^verbatim>\<open>commonpath\<close> a generator, not a list.
  \<^verbatim>\<open>commonpath\<close> begins with \<^verbatim>\<open>if not paths: raise ValueError(...)\<close>, then makes
  \<^verbatim>\<open>paths = tuple(map(os.fspath, paths))\<close> and reads \<^verbatim>\<open>paths[0]\<close>. A generator is true, so
  for no subject at all the test passes and \<^verbatim>\<open>paths[0]\<close> raises \<^verbatim>\<open>IndexError\<close>. (This is the
  \<^verbatim>\<open>commonpath\<close> of the Python versions that run this file, which needs \<^verbatim>\<open>np.float\<close>.)
\<close>

definition get_common_path :: "SubjectFile list \<Rightarrow> py_error + string" where
  "get_common_path sfs =
     (case map_raising get_subject_common sfs of
        Inl e \<Rightarrow> Inl e
      | Inr [] \<Rightarrow> Inl (IndexError ''tuple index out of range'')
      | Inr (c # commons) \<Rightarrow> commonpath (c # commons))"

definition WriteFilesCallback_on_start ::
  "params \<Rightarrow> WriteFilesCallback \<Rightarrow> (py_error, WriteFilesCallback) outcome" where
  "WriteFilesCallback_on_start params self =
     (case subject_files params of
        None \<Rightarrow> Raise (KeyError ''subject_files'') self
      | Some sfs \<Rightarrow>
     (case get_common_path sfs of
        Inl e \<Rightarrow> Raise e self
      | Inr root \<Rightarrow>
     (let self1 = self\<lparr>file_root := Some root\<rparr>;
          self2 = self1\<lparr>writer :=
            writer_write FILE_ROOT (VStr root) (Some (dtype_name ''str'')) (writer self1)\<rparr>
      in case sequence_names params of
        None \<Rightarrow> Raise (KeyError ''sequence_names'') self2
      | Some names \<Rightarrow>
     (let self3 = self2\<lparr>writer :=
            writer_reserve SEQ_FILES [length sfs, length names] (dtype_name ''str'')
              (writer self2)\<rparr>
      in case has_gt params of
        None \<Rightarrow> Raise (KeyError ''has_gt'') self3
      | Some gt \<Rightarrow>
          if gt then
            (case gt_names params of
               None \<Rightarrow> Raise (KeyError ''gt_names'') self3
             | Some gnames \<Rightarrow>
                 Return (self3\<lparr>writer :=
                   writer_reserve GT_FILES [length sfs, length gnames] (dtype_name ''str'')
                     (writer self3)\<rparr>))
          else Return self3))))"

definition WriteFilesCallback_on_image_file ::
  "string \<Rightarrow> params \<Rightarrow> WriteFilesCallback \<Rightarrow> (py_error, WriteFilesCallback) outcome" where
  "WriteFilesCallback_on_image_file cwd params self =
     (case file' params of
        None \<Rightarrow> Raise (KeyError ''file'') self
      | Some sequence_file \<Rightarrow>
     (case subject_index params of
        None \<Rightarrow> Raise (KeyError ''subject_index'') self
      | Some si \<Rightarrow>
     (case sequence_index params of
        None \<Rightarrow> Raise (KeyError ''sequence_index'') self
      | Some qi \<Rightarrow>
     (case relpath cwd sequence_file (file_root self) of
        Inl e \<Rightarrow> Raise e self
      | Inr relative_path \<Rightarrow>
          Return (self\<lparr>writer :=
            writer_fill SEQ_FILES (VStr relative_path) (IndexExpression [si, qi] (Some [0, 1]))
              (writer self)\<rparr>)))))"

definition WriteFilesCallback_on_gt_file ::
  "string \<Rightarrow> params \<Rightarrow> WriteFilesCallback \<Rightarrow> (py_error, WriteFilesCallback) outcome" where
  "WriteFilesCallback_on_gt_file cwd params self =
     (case file' params of
        None \<Rightarrow> Raise (KeyError ''file'') self
      | Some gt_file \<Rightarrow>
     (case subject_index params of
        None \<Rightarrow> Raise (KeyError ''subject_index'') self
      | Some si \<Rightarrow>
     (case gt_index params of
        None \<Rightarrow> Raise (KeyError ''gt_index'') self
      | Some gi \<Rightarrow>
     (case relpath cwd gt_file (file_root self) of
        Inl e \<Rightarrow> Raise e self
      | Inr relative_path \<Rightarrow>
          Return (self\<lparr>writer :=
            writer_fill GT_FILES (VStr relative_path) (IndexExpression [si, gi] (Some [0, 1]))
              (writer self)\<rparr>)))))"

section \<open>The writing callbacks as Callback objects\<close>

text \<open>
  Each class derives from \<^verbatim>\<open>Callback\<close> and overrides some hooks; the others stay the
  no-ops of the base class.
\<close>

definition WriteDataCallback :: "(params, writer_holder, py_error) callback" where
  "WriteDataCallback = Callback\<lparr>on_subject_end := WriteDataCallback_on_subject_end\<rparr>"

definition WriteSubjectCallback :: "(params, writer_holder, py_error) callback" where
  "WriteSubjectCallback =
     Callback\<lparr>on_start := WriteSubjectCallback_on_start,
              on_subject_start := WriteSubjectCallback_on_subject_start\<rparr>"

definition WriteImageInformationCallback ::
  "(params, WriteImageInformationCallback, py_error) callback" where
  "WriteImageInformationCallback =
     Callback\<lparr>on_start := WriteImageInformationCallback_on_start,
              on_image_file := WriteImageInformationCallback_on_image_file\<rparr>"

definition WriteNamesCallback :: "(params, writer_holder, py_error) callback" where
  "WriteNamesCallback = Callback\<lparr>on_start := WriteNamesCallback_on_start\<rparr>"

definition WriteFilesCallback :: "string \<Rightarrow> (params, WriteFilesCallback, py_error) callback" where
  "WriteFilesCallback cwd =
     Callback\<lparr>on_start := WriteFilesCallback_on_start,
              on_image_file := WriteFilesCallback_on_image_file cwd,
              on_gt_file := WriteFilesCallback_on_gt_file cwd\<rparr>"

section \<open>The driver\<close>

datatype hook = OnStart | OnEnd | OnSubjectStart | OnSubjectEnd | OnGtFile | OnImageFile

definition call ::
  "hook \<Rightarrow> ('p, 's, 'e) callback \<Rightarrow> 'p \<Rightarrow> 's \<Rightarrow> ('e, 's) outcome" where
  "call h c =
     (case h of
        OnStart \<Rightarrow> on_start c
      | OnEnd \<Rightarrow> on_end c
      | OnSubjectStart \<Rightarrow> on_subject_start c
      | OnSubjectEnd \<Rightarrow> on_subject_end c
      | OnGtFile \<Rightarrow> on_gt_file c
      | OnImageFile \<Rightarrow> on_image_file c)"

text \<open>
  Modelled from the spec: the iteration driver is not among the sources. Section 5 of the
  spec has it invoke the hooks one after the other, each with a bundle, and has a failure
  in a callback abort the run. A run is the list of its events, a hook and its bundle
  each.
\<close>

fun drive ::
  "('p, 's, 'e) callback \<Rightarrow> (hook \<times> 'p) list \<Rightarrow> 's \<Rightarrow> ('e, 's) outcome" where
  "drive c [] s = Return s"
| "drive c ((h, p) # events) s =
     (case call h c p s of
        Raise e s' \<Rightarrow> Raise e s'
      | Return s' \<Rightarrow> drive c events s')"

text \<open>
  Modelled from the spec: the ordering contract of the driver as far as reserving and
  filling depend on it. The events after \<^verbatim>\<open>on_start\<close> are no \<^verbatim>\<open>on_start\<close>; a subject index
  in their bundles is a position in the \<^verbatim>\<open>subject_files\<close> of the bundle \<open>p0\<close> of
  \<^verbatim>\<open>on_start\<close>, a sequence index a position in its \<^verbatim>\<open>sequence_names\<close>, a ground-truth
  index a position in its \<^verbatim>\<open>gt_names\<close>.
\<close>

definition position_in :: "int option \<Rightarrow> 'a list option \<Rightarrow> bool" where
  "position_in i xs =
     (case i of
        None \<Rightarrow> True
      | Some j \<Rightarrow> (case xs of None \<Rightarrow> False | Some ys \<Rightarrow> 0 \<le> j \<and> j < int (length ys)))"

definition event_in_contract :: "params \<Rightarrow> hook \<times> params \<Rightarrow> bool" where
  "event_in_contract p0 ev =
     (fst ev \<noteq> OnStart \<and>
      position_in (subject_index (snd ev)) (subject_files p0) \<and>
      position_in (sequence_index (snd ev)) (sequence_names p0) \<and>
      position_in (gt_index (snd ev)) (gt_names p0))"

definition driver_contract :: "params \<Rightarrow> (hook \<times> params) list \<Rightarrow> bool" where
  "driver_contract p0 events = list_all (event_in_contract p0) events"

text \<open>
  Ground-truth events fire only in a run whose \<^verbatim>\<open>on_start\<close> bundle has \<^verbatim>\<open>has_gt\<close> true.
\<close>

definition gt_events_need_has_gt :: "params \<Rightarrow> (hook \<times> params) list \<Rightarrow> bool" where
  "gt_events_need_has_gt p0 events =
     (has_gt p0 = Some True \<or> list_all (\<lambda>ev. fst ev \<noteq> OnGtFile) events)"

section \<open>Reserving before filling\<close>

text \<open>
  The invariant of section 3 of the spec, on the calls a writer received: no key is
  reserved twice, and every fill comes after the reserve of its key and addresses
  positions within the reserved shape. The first argument lists the keys reserved so far
  with their shapes.
\<close>

fun reserve_then_fill :: "(string \<times> nat list) list \<Rightarrow> writer \<Rightarrow> bool" where
  "reserve_then_fill rs [] = True"
| "reserve_then_fill rs (Reserve key shp dt # w) =
     (map_of rs key = None \<and> reserve_then_fill ((key, shp) # rs) w)"
| "reserve_then_fill rs (Fill key v ie # w) =
     ((case map_of rs key of None \<Rightarrow> False | Some shp \<Rightarrow> within_bounds ie shp) \<and>
      reserve_then_fill rs w)"
| "reserve_then_fill rs (Write key v dt # w) = reserve_then_fill rs w"

fun reserved_keys :: "writer \<Rightarrow> string list" where
  "reserved_keys [] = []"
| "reserved_keys (Reserve key shp dt # w) = key # reserved_keys w"
| "reserved_keys (Fill key v ie # w) = reserved_keys w"
| "reserved_keys (Write key v dt # w) = reserved_keys w"

fun is_fill :: "writer_call \<Rightarrow> bool" where
  "is_fill (Fill key v ie) = True"
| "is_fill (Reserve key shp dt) = False"
| "is_fill (Write key v dt) = False"

section \<open>What the reserved arrays hold\<close>




section \<open>Reading a decimal string\<close>

text \<open>
  The number a string of decimal digits stands for, as \<^verbatim>\<open>int(s)\<close> reads it; leading zeros
  do not change it.
\<close>

definition digit_value :: "char \<Rightarrow> nat" where
  "digit_value c = of_char c - 48"

definition decimal_value :: "string \<Rightarrow> nat" where
  "decimal_value s = foldl (\<lambda>a c. 10 * a + digit_value c) 0 s"

section \<open>A run of one callback against the invariant\<close>

text \<open>The keys reserved, with their shapes, once the calls \<open>w\<close> have followed \<open>rs\<close>.\<close>

fun reserved_shapes :: "(string \<times> nat list) list \<Rightarrow> writer \<Rightarrow> (string \<times> nat list) list" where
  "reserved_shapes rs [] = rs"
| "reserved_shapes rs (Reserve key shp dt # w) = reserved_shapes ((key, shp) # rs) w"
| "reserved_shapes rs (Fill key v ie # w) = reserved_shapes rs w"
| "reserved_shapes rs (Write key v dt # w) = reserved_shapes rs w"

text \<open>
  What the invariant asks of a run that starts with \<^verbatim>\<open>on_start\<close> on the bundle \<open>p0\<close> and
  goes on with \<open>events\<close>, for a callback \<open>c\<close> in the state \<open>s0\<close>. With \<open>w0\<close> the calls
  the writer has received when \<^verbatim>\<open>on_start\<close> is over and \<open>w\<close> those it has received at the
  end of the run: \<open>w\<close> begins with \<open>w0\<close>, every call after \<open>w0\<close> is a fill, so that all
  reserving is done during \<^verbatim>\<open>on_start\<close>, and \<open>w\<close> reserves no key twice and fills only
  reserved keys within their bounds.
\<close>

definition reserves_at_start_fills_within ::
  "('p, 'a writer_holder_scheme, 'e) callback \<Rightarrow> 'a writer_holder_scheme \<Rightarrow> 'p \<Rightarrow>
   (hook \<times> 'p) list \<Rightarrow> bool" where
  "reserves_at_start_fills_within c s0 p0 events =
     (let w0 = writer (state_of (call OnStart c p0 s0));
          w = writer (state_of (drive c ((OnStart, p0) # events) s0))
      in take (length w0) w = w0 \<and> list_all is_fill (drop (length w0) w) \<and>
         reserve_then_fill [] w)"

section \<open>Common ancestors of paths\<close>

text \<open>
  A component as \<^verbatim>\<open>commonpath\<close> keeps it: not empty, not \<^verbatim>\<open>.\<close>, and without a separator.
\<close>

definition clean :: "string \<Rightarrow> bool" where
  "clean c \<longleftrightarrow> c \<noteq> [] \<and> c \<noteq> ''.'' \<and> CHR ''/'' \<notin> set c"

text \<open>
  \<open>l\<close> is the longest list that is a prefix of every list of \<open>S\<close>: a prefix of each, and
  every other common prefix is a prefix of \<open>l\<close>.
\<close>

definition greatest_common_prefix :: "'a list \<Rightarrow> 'a list set \<Rightarrow> bool" where
  "greatest_common_prefix l S \<longleftrightarrow>
     (\<forall>s\<in>S. prefix l s) \<and> (\<forall>l'. (\<forall>s\<in>S. prefix l' s) \<longrightarrow> prefix l' l)"

text \<open>
  The words of the spec, "common path ancestor", read on the components of the paths as
  \<^verbatim>\<open>os.path\<close> reads them (no file system is consulted, \<^verbatim>\<open>..\<close> is a component like any
  other): the path \<open>a\<close> is an ancestor of the path \<open>f\<close>, or \<open>f\<close> itself, when both are
  absolute or both relative and the components of \<open>a\<close> begin those of \<open>f\<close>.
\<close>

definition is_ancestor :: "string \<Rightarrow> string \<Rightarrow> bool" where
  "is_ancestor a f \<longleftrightarrow>
     (take 1 a = sep \<longleftrightarrow> take 1 f = sep) \<and> prefix (path_components a) (path_components f)"

text \<open>
  \<open>a\<close> is the longest common ancestor of the files: an ancestor of each of them, and
  every common ancestor of the files is an ancestor of \<open>a\<close>.
\<close>

definition longest_common_ancestor :: "string \<Rightarrow> string list \<Rightarrow> bool" where
  "longest_common_ancestor a files \<longleftrightarrow>
     (\<forall>f\<in>set files. is_ancestor a f) \<and>
     (\<forall>b. (\<forall>f\<in>set files. is_ancestor b f) \<longrightarrow> is_ancestor b a)"

text \<open>
  A path written the way \<^verbatim>\<open>commonpath\<close> writes its result: the root \<^verbatim>\<open>/\<close> if it is
  absolute, then its components joined by single separators.
\<close>

definition normal_path :: "string \<Rightarrow> bool" where
  "normal_path r \<longleftrightarrow>
     r = (if take 1 r = sep then sep else []) @ join_sep (path_components r)"

text \<open>
  What \<^verbatim>\<open>get_subject_common\<close> is shown to return for a subject \<open>sf\<close> whose paths are all
  absolute (\<open>b\<close> true) or all relative (\<open>b\<close> false).
\<close>

definition subject_common :: "bool \<Rightarrow> SubjectFile \<Rightarrow> string \<Rightarrow> bool" where
  "subject_common b sf r \<longleftrightarrow>
     normal_path r \<and> (take 1 r = sep) = b \<and>
     greatest_common_prefix (path_components r) (path_components ` set (all_files sf))"

section \<open>Properties of Callback and ComposeCallback\<close>

lemma call_Callback: "call h Callback params s = Return s"
  by (cases h)
     (simp_all add: call_def Callback_def Callback_on_start_def Callback_on_end_def
        Callback_on_subject_start_def Callback_on_subject_end_def Callback_on_gt_file_def
        Callback_on_image_file_def)

text \<open>
  Claim C8. Each of the six hooks of a plain \<^verbatim>\<open>Callback\<close> returns without raising and
  leaves the state as it was, whatever the parameter bundle; this holds for the methods
  themselves, for a call through the object, and for the empty bundle.
\<close>

theorem Callback_hooks_do_nothing:
  "Callback_on_start params s = Return s \<and>
   Callback_on_end params s = Return s \<and>
   Callback_on_subject_start params s = Return s \<and>
   Callback_on_subject_end params s = Return s \<and>
   Callback_on_gt_file params s = Return s \<and>
   Callback_on_image_file params s = Return s \<and>
   call h Callback params s = Return s \<and>
   call h Callback empty_params s = Return s"
  by (simp add: call_Callback Callback_on_start_def Callback_on_end_def
        Callback_on_subject_start_def Callback_on_subject_end_def Callback_on_gt_file_def
        Callback_on_image_file_def)

lemma for_each_callback_append:
  "for_each_callback hook (xs @ ys) params s =
     (case for_each_callback hook xs params s of
        Raise e s' \<Rightarrow> Raise e s'
      | Return s' \<Rightarrow> for_each_callback hook ys params s')"
  by (induction xs arbitrary: s) (auto split: outcome.splits)

lemma call_ComposeCallback:
  "call h (ComposeCallback cs) params s = for_each_callback (call h) cs params s"
proof -
  have sel: "call OnStart = on_start" "call OnEnd = on_end"
    "call OnSubjectStart = on_subject_start" "call OnSubjectEnd = on_subject_end"
    "call OnGtFile = on_gt_file" "call OnImageFile = on_image_file"
    by (simp_all add: call_def fun_eq_iff)
  show ?thesis
    by (cases h)
       (simp_all add: sel, simp_all add: call_def ComposeCallback_def ComposeCallback_on_start_def
          ComposeCallback_on_end_def ComposeCallback_on_subject_start_def
          ComposeCallback_on_subject_end_def ComposeCallback_on_gt_file_def
          ComposeCallback_on_image_file_def)
qed

text \<open>
  Claim C3. For each hook \<open>h\<close> of the six, a \<^verbatim>\<open>ComposeCallback\<close> calls the hook \<open>h\<close> of its
  children in list order with the bundle it was given. Without children it returns at
  once. When the children \<open>pre\<close> have returned, leaving the state \<open>s1\<close>, the next child
  \<open>c\<close> is called on \<open>s1\<close> with the same bundle: if it returns, the composite over
  \<open>pre @ [c]\<close> returns its state; if it raises \<open>e\<close>, the composite raises \<open>e\<close> with the
  state \<open>c\<close> left, whatever children \<open>rest\<close> follow \<open>c\<close>: none of them is called.
\<close>

theorem ComposeCallback_dispatch:
  "call h (ComposeCallback []) params s = Return s \<and>
   (\<forall>s1 s2. call h (ComposeCallback pre) params s = Return s1 \<and>
       call h c params s1 = Return s2 \<longrightarrow>
       call h (ComposeCallback (pre @ [c])) params s = Return s2) \<and>
   (\<forall>s1 s2 e rest. call h (ComposeCallback pre) params s = Return s1 \<and>
       call h c params s1 = Raise e s2 \<longrightarrow>
       call h (ComposeCallback (pre @ c # rest)) params s = Raise e s2)"
  by (simp add: call_ComposeCallback for_each_callback_append)

text \<open>
  Three children on a list of numbers as state: the first appends 1, the second appends
  2 and raises, the third would append 3. The composite raises what the second raised,
  and 3 was never appended.
\<close>

theorem ComposeCallback_dispatch_witness:
  "call OnStart
     (ComposeCallback
        [Callback\<lparr>on_start := \<lambda>p s. Return (s @ [1::nat])\<rparr>,
         Callback\<lparr>on_start := \<lambda>p s. Raise ''boom'' (s @ [2])\<rparr>,
         Callback\<lparr>on_start := \<lambda>p s. Return (s @ [3])\<rparr>]) () [] = Raise ''boom'' [1, 2]"
proof -
  let ?A = "Callback\<lparr>on_start := \<lambda>(p::unit) s. Return (s @ [1::nat])\<rparr>
              :: (unit, nat list, string) callback"
  let ?B = "Callback\<lparr>on_start := \<lambda>(p::unit) s. Raise ''boom'' (s @ [2::nat])\<rparr>
              :: (unit, nat list, string) callback"
  let ?C = "Callback\<lparr>on_start := \<lambda>(p::unit) s. Return (s @ [3::nat])\<rparr>
              :: (unit, nat list, string) callback"
  have a: "call OnStart (ComposeCallback [?A]) () [] = Return [1]"
    by (simp add: call_def ComposeCallback_def ComposeCallback_on_start_def)
  have b: "call OnStart ?B () [1] = Raise ''boom'' [1, 2]"
    by (simp add: call_def)
  from ComposeCallback_dispatch [where h = OnStart and pre = "[?A]" and c = ?B
      and params = "()" and s = "[]"] a b
  have "call OnStart (ComposeCallback ([?A] @ ?B # [?C])) () [] = Raise ''boom'' [1, 2]"
    by blast
  then show ?thesis by simp
qed

section \<open>Properties of WriteDataCallback\<close>

lemma str_nat_12: "str_nat 12 = ''12''"
  by code_simp

lemma str_nat_3: "str_nat 3 = ''3''"
  by code_simp

text \<open>
  Claim C6. A call of \<^verbatim>\<open>on_subject_end\<close> whose bundle holds the keys the method reads
  (\<^verbatim>\<open>subject_files\<close>, \<^verbatim>\<open>subject_index\<close>, \<^verbatim>\<open>images\<close>, \<^verbatim>\<open>has_gt\<close>, and \<^verbatim>\<open>labels\<close> when
  \<^verbatim>\<open>has_gt\<close> is true) returns, and the calls it makes on the writer are exactly these: a
  \<^verbatim>\<open>write\<close> of the images array, as a whole value, under \<^verbatim>\<open>data/sequences/<index>\<close>, and
  then, if and only if \<^verbatim>\<open>has_gt\<close> is true, a \<^verbatim>\<open>write\<close> of the labels array under
  \<^verbatim>\<open>data/gts/<index>\<close>, where \<^verbatim>\<open><index>\<close> is the subject index padded with zeros to the
  number of digits of the subject count. It makes no \<^verbatim>\<open>reserve\<close>, no \<^verbatim>\<open>fill\<close> and no other
  \<^verbatim>\<open>write\<close>.
\<close>

theorem WriteDataCallback_on_subject_end_writes:
  assumes "subject_files params = Some sfs" and "subject_index params = Some si"
    and "images params = Some np_images" and "has_gt params = Some gt"
    and "gt \<longrightarrow> labels params = Some np_gts"
  shows "WriteDataCallback_on_subject_end params self =
           Return (self\<lparr>writer := writer self @
             Write (''data/sequences/'' @ format_zero_padded (length (str_nat (length sfs))) si)
               (VArray np_images) None #
             (if gt
              then [Write (''data/gts/'' @ format_zero_padded (length (str_nat (length sfs))) si)
                      (VArray np_gts) None]
              else [])\<rparr>)"
  using assms
  by (simp add: WriteDataCallback_on_subject_end_def writer_write_def SEQ_PATH_def GT_PATH_def
      index_str_def max_digits_def Let_def)

theorem WriteDataCallback_on_subject_end_writes_witness:
  "WriteDataCallback_on_subject_end
     (empty_params\<lparr>subject_files := Some (replicate 12 \<lparr>get_sequences = [], get_gts = None\<rparr>),
        subject_index := Some 3, images := Some (NdArray [1] [Float 1 0]),
        labels := Some (NdArray [1] [Float 0 0]), has_gt := Some True\<rparr>)
     \<lparr>writer = []\<rparr> =
   Return \<lparr>writer = [Write ''data/sequences/03'' (VArray (NdArray [1] [Float 1 0])) None,
                      Write ''data/gts/03'' (VArray (NdArray [1] [Float 0 0])) None]\<rparr>"
  using WriteDataCallback_on_subject_end_writes
    [where params = "empty_params\<lparr>subject_files := Some (replicate 12 \<lparr>get_sequences = [], get_gts = None\<rparr>),
        subject_index := Some 3, images := Some (NdArray [1] [Float 1 0]),
        labels := Some (NdArray [1] [Float 0 0]), has_gt := Some True\<rparr>"
      and sfs = "replicate 12 \<lparr>get_sequences = [], get_gts = None\<rparr>" and si = 3
      and np_images = "NdArray [1] [Float 1 0]" and gt = True and np_gts = "NdArray [1] [Float 0 0]"
      and self = "\<lparr>writer = []\<rparr>"]
  by (simp add: empty_params_def format_zero_padded_def str_nat_12 str_nat_3)

section \<open>Properties of WriteImageInformationCallback\<close>

text \<open>
  Claim C2, as amended. A call of \<^verbatim>\<open>on_image_file\<close> whose subject index is the recorded
  previous one makes no call on the writer and leaves the state as it is. That is the
  case for a call that follows a call with the same subject index that returned: the
  call that returned has recorded the index. A call whose subject index differs from the
  recorded one (none is recorded before the first call) and whose \<^verbatim>\<open>raw_image\<close> is an
  image makes the three fills on the row of its subject and records the index.
\<close>

theorem on_image_file_once_per_subject:
  "(subject_index params = Some si \<and> prev_subject_index self = Some si \<longrightarrow>
      WriteImageInformationCallback_on_image_file params self = Return self) \<and>
   (subject_index params = Some si \<and> subject_index params' = Some si \<and>
      WriteImageInformationCallback_on_image_file params self = Return s' \<longrightarrow>
      prev_subject_index s' = Some si \<and>
      WriteImageInformationCallback_on_image_file params' s' = Return s') \<and>
   (subject_index params = Some si \<and> prev_subject_index self \<noteq> Some si \<and>
      raw_image params = Some (Image img) \<longrightarrow>
      WriteImageInformationCallback_on_image_file params self =
        Return (self\<lparr>writer := writer self @
                  [Fill ''meta/shapes'' (VIntTuple (GetSize img)) (IndexExpression [si] None),
                   Fill ''meta/directions'' (VFloatTuple (GetDirection img))
                     (IndexExpression [si] None),
                   Fill ''meta/spacing'' (VFloatTuple (GetSpacing img))
                     (IndexExpression [si] None)],
                 prev_subject_index := Some si\<rparr>))"
  by (auto simp: WriteImageInformationCallback_on_image_file_def Let_def writer_fill_def
      SHAPE_def DIRECTION_def SPACING_def
      split: option.splits if_splits py_object.splits)

theorem on_image_file_once_per_subject_witness:
  "WriteImageInformationCallback_on_image_file
     (empty_params\<lparr>subject_index := Some 0,
        raw_image := Some (Image \<lparr>GetSize = [4, 5, 6], GetDirection = [], GetSpacing = []\<rparr>)\<rparr>)
     (WriteImageInformationCallback_init []) =
   Return \<lparr>writer =
       [Fill ''meta/shapes'' (VIntTuple [4, 5, 6]) (IndexExpression [0] None),
        Fill ''meta/directions'' (VFloatTuple []) (IndexExpression [0] None),
        Fill ''meta/spacing'' (VFloatTuple []) (IndexExpression [0] None)],
     prev_subject_index = Some 0\<rparr> \<and>
   WriteImageInformationCallback_on_image_file
     (empty_params\<lparr>subject_index := Some 0, raw_image := Some (Other ''str'')\<rparr>)
     \<lparr>writer =
       [Fill ''meta/shapes'' (VIntTuple [4, 5, 6]) (IndexExpression [0] None),
        Fill ''meta/directions'' (VFloatTuple []) (IndexExpression [0] None),
        Fill ''meta/spacing'' (VFloatTuple []) (IndexExpression [0] None)],
     prev_subject_index = Some 0\<rparr> =
   Return \<lparr>writer =
       [Fill ''meta/shapes'' (VIntTuple [4, 5, 6]) (IndexExpression [0] None),
        Fill ''meta/directions'' (VFloatTuple []) (IndexExpression [0] None),
        Fill ''meta/spacing'' (VFloatTuple []) (IndexExpression [0] None)],
     prev_subject_index = Some 0\<rparr>"
proof -
  let ?img = "\<lparr>GetSize = [4, 5, 6], GetDirection = [], GetSpacing = []\<rparr>"
  let ?p = "empty_params\<lparr>subject_index := Some 0, raw_image := Some (Image ?img)\<rparr>"
  let ?p2 = "empty_params\<lparr>subject_index := Some 0, raw_image := Some (Other ''str'')\<rparr>"
  let ?s = "WriteImageInformationCallback_init []"
  let ?t = "\<lparr>writer =
       [Fill ''meta/shapes'' (VIntTuple [4, 5, 6]) (IndexExpression [0] None),
        Fill ''meta/directions'' (VFloatTuple []) (IndexExpression [0] None),
        Fill ''meta/spacing'' (VFloatTuple []) (IndexExpression [0] None)],
     prev_subject_index = Some (0::int)\<rparr>"
  note t = on_image_file_once_per_subject
    [where params = ?p and params' = ?p2 and self = ?s and si = 0 and img = ?img and s' = ?t]
  have h: "subject_index ?p = Some 0 \<and> prev_subject_index ?s \<noteq> Some 0 \<and>
      raw_image ?p = Some (Image ?img)"
    by (simp add: empty_params_def WriteImageInformationCallback_init_def)
  have "WriteImageInformationCallback_on_image_file ?p ?s =
      Return (?s\<lparr>writer := writer ?s @
                  [Fill ''meta/shapes'' (VIntTuple (GetSize ?img)) (IndexExpression [0] None),
                   Fill ''meta/directions'' (VFloatTuple (GetDirection ?img))
                     (IndexExpression [0] None),
                   Fill ''meta/spacing'' (VFloatTuple (GetSpacing ?img))
                     (IndexExpression [0] None)],
                 prev_subject_index := Some 0\<rparr>)"
    using conjunct2 [OF conjunct2 [OF t]] h by blast
  then have a: "WriteImageInformationCallback_on_image_file ?p ?s = Return ?t"
    by (simp add: WriteImageInformationCallback_init_def)
  have h2: "subject_index ?p = Some 0 \<and> subject_index ?p2 = Some 0"
    by (simp add: empty_params_def)
  have b: "WriteImageInformationCallback_on_image_file ?p2 ?t = Return ?t"
    using conjunct1 [OF conjunct2 [OF t]] h2 a by blast
  from a b show ?thesis by blast
qed

text \<open>
  The claim as stated fails at the first call of a fresh callback when \<^verbatim>\<open>raw_image\<close> is
  not an image: the subject index 0 differs from the recorded one (none), and the call
  raises without a fill. The caller that goes on finds the index still not recorded: the
  next call, with the subject index of the call before it, makes the three fills.
\<close>

theorem on_image_file_once_per_subject_counterexample:
  "WriteImageInformationCallback_on_image_file
     (empty_params\<lparr>subject_index := Some 0, raw_image := Some (Other ''ndarray'')\<rparr>)
     \<lparr>writer = [], prev_subject_index = None\<rparr> =
   Raise (ValueError raw_image_message) \<lparr>writer = [], prev_subject_index = None\<rparr> \<and>
   WriteImageInformationCallback_on_image_file
     (empty_params\<lparr>subject_index := Some 0,
        raw_image := Some (Image \<lparr>GetSize = [4, 5, 6], GetDirection = [], GetSpacing = []\<rparr>)\<rparr>)
     \<lparr>writer = [], prev_subject_index = None\<rparr> =
   Return \<lparr>writer =
       [Fill ''meta/shapes'' (VIntTuple [4, 5, 6]) (IndexExpression [0] None),
        Fill ''meta/directions'' (VFloatTuple []) (IndexExpression [0] None),
        Fill ''meta/spacing'' (VFloatTuple []) (IndexExpression [0] None)],
     prev_subject_index = Some 0\<rparr>"
  by (simp add: WriteImageInformationCallback_on_image_file_def empty_params_def
      writer_fill_def SHAPE_def DIRECTION_def SPACING_def)

text \<open>
  Claim C4. \<^verbatim>\<open>on_image_file\<close> raises \<^verbatim>\<open>ValueError\<close> if and only if the bundle has a subject
  index that differs from the recorded previous one (the call is not skipped) and its
  \<^verbatim>\<open>raw_image\<close> is an object that is not an image. Whenever the call raises, the state is
  what it was before the call: no fill was made and the recorded index is unchanged.
\<close>

theorem WriteImageInformationCallback_ValueError_iff:
  "((\<exists>msg s'. WriteImageInformationCallback_on_image_file params self =
        Raise (ValueError msg) s') \<longleftrightarrow>
    (\<exists>si type_name. subject_index params = Some si \<and> prev_subject_index self \<noteq> Some si \<and>
        raw_image params = Some (Other type_name))) \<and>
   (\<forall>e s'. WriteImageInformationCallback_on_image_file params self = Raise e s' \<longrightarrow>
        s' = self \<and> writer s' = writer self \<and>
        prev_subject_index s' = prev_subject_index self)"
  by (auto simp: WriteImageInformationCallback_on_image_file_def Let_def
      split: option.splits if_splits py_object.splits)

theorem WriteImageInformationCallback_ValueError_iff_witness:
  "WriteImageInformationCallback_on_image_file
     (empty_params\<lparr>subject_index := Some 1, raw_image := Some (Other ''ndarray'')\<rparr>)
     \<lparr>writer = [], prev_subject_index = Some 0\<rparr> =
   Raise (ValueError raw_image_message) \<lparr>writer = [], prev_subject_index = Some 0\<rparr> \<and>
   (\<exists>msg s'. WriteImageInformationCallback_on_image_file
      (empty_params\<lparr>subject_index := Some 1, raw_image := Some (Other ''ndarray'')\<rparr>)
      \<lparr>writer = [], prev_subject_index = Some 0\<rparr> = Raise (ValueError msg) s')"
proof -
  let ?p = "empty_params\<lparr>subject_index := Some 1, raw_image := Some (Other ''ndarray'')\<rparr>"
  let ?s = "\<lparr>writer = [], prev_subject_index = Some (0::int)\<rparr>"
  have cond: "\<exists>si type_name. subject_index ?p = Some si \<and> prev_subject_index ?s \<noteq> Some si \<and>
        raw_image ?p = Some (Other type_name)"
    by (simp add: empty_params_def)
  from WriteImageInformationCallback_ValueError_iff [of ?p ?s] cond
  obtain msg s' where r: "WriteImageInformationCallback_on_image_file ?p ?s = Raise (ValueError msg) s'"
    by blast
  with WriteImageInformationCallback_ValueError_iff [of ?p ?s] have "s' = ?s" by blast
  moreover have "WriteImageInformationCallback_on_image_file ?p ?s =
      Raise (ValueError raw_image_message) ?s"
    by (simp add: WriteImageInformationCallback_on_image_file_def empty_params_def)
  ultimately show ?thesis using r by blast
qed




section \<open>Properties of the index string\<close>

lemma digit_cases: "d < 10 \<Longrightarrow> d \<in> {0, 1, 2, 3, 4, 5, 6, 7, 8, 9::nat}"
  by auto

lemma digit_value_digit_char: "d < 10 \<Longrightarrow> digit_value (digit_char d) = d"
  using digit_cases [of d] by (auto simp: digit_value_def digit_char_def)

lemma digit_char_in_digits: "d < 10 \<Longrightarrow> digit_char d \<in> set ''0123456789''"
  using digit_cases [of d] by (auto simp: digit_char_def)

lemma length_str_nat_pos: "0 < length (str_nat n)"
  by (subst str_nat.simps) simp

lemma length_str_nat_mono: "n \<le> m \<Longrightarrow> length (str_nat n) \<le> length (str_nat m)"
proof (induction n arbitrary: m rule: str_nat.induct)
  case (1 n)
  show ?case
  proof (cases "n < 10")
    case True
    then have "length (str_nat n) = 1" by (subst str_nat.simps) simp
    with length_str_nat_pos [of m] show ?thesis by (cases "str_nat m") simp_all
  next
    case False
    with "1.prems" have m: "\<not> m < 10" by simp
    from "1.prems" have "n div 10 \<le> m div 10" by (rule div_le_mono)
    with False have "length (str_nat (n div 10)) \<le> length (str_nat (m div 10))"
      by (rule "1.IH")
    moreover from False have "length (str_nat n) = Suc (length (str_nat (n div 10)))"
      by (subst str_nat.simps) simp
    moreover from m have "length (str_nat m) = Suc (length (str_nat (m div 10)))"
      by (subst str_nat.simps) simp
    ultimately show ?thesis by simp
  qed
qed

lemma str_nat_digits: "set (str_nat n) \<subseteq> set ''0123456789''"
proof (induction n rule: str_nat.induct)
  case (1 n)
  show ?case
  proof (cases "n < 10")
    case True
    then show ?thesis
      using digit_char_in_digits [of n] by (subst str_nat.simps) simp
  next
    case False
    then show ?thesis
      using "1.IH" digit_char_in_digits [of "n mod 10"] by (subst str_nat.simps) simp
  qed
qed

lemma decimal_value_snoc: "decimal_value (s @ [c]) = 10 * decimal_value s + digit_value c"
  by (simp add: decimal_value_def)

lemma decimal_value_str_nat: "decimal_value (str_nat n) = n"
proof (induction n rule: str_nat.induct)
  case (1 n)
  show ?case
  proof (cases "n < 10")
    case True
    then show ?thesis
      by (subst str_nat.simps) (simp add: decimal_value_def digit_value_digit_char)
  next
    case False
    then show ?thesis
      using "1.IH" by (subst str_nat.simps) (simp add: decimal_value_snoc digit_value_digit_char)
  qed
qed

lemma foldl_zeros: "foldl (\<lambda>a c. 10 * a + digit_value c) 0 (replicate k (CHR ''0'')) = 0"
  by (induction k) (simp_all add: digit_value_def)

lemma decimal_value_zeros: "decimal_value (replicate k (CHR ''0'') @ s) = decimal_value s"
  by (simp add: decimal_value_def foldl_zeros)

lemma format_zero_padded_nonneg:
  "0 \<le> i \<Longrightarrow> format_zero_padded w i = replicate (w - length (str_nat (nat i))) (CHR ''0'') @ str_nat (nat i)"
  by (simp add: format_zero_padded_def Let_def)

lemma decimal_value_format: "0 \<le> i \<Longrightarrow> decimal_value (format_zero_padded w i) = nat i"
  by (simp add: format_zero_padded_nonneg decimal_value_zeros decimal_value_str_nat)

text \<open>
  Claim C1. For a list of \<open>N \<ge> 1\<close> subjects and a subject index \<open>i\<close> in \<open>0 .. N - 1\<close>,
  the index string of \<^verbatim>\<open>on_subject_end\<close> has exactly \<^verbatim>\<open>len(str(N))\<close> characters, all of
  them decimal digits, and a subject index \<open>j\<close> of the same range with the same index
  string is \<open>i\<close> itself: the \<open>N\<close> strings are pairwise distinct.
\<close>

theorem index_str_fixed_width_distinct:
  assumes "1 \<le> length sfs" and "0 \<le> i" and "i < int (length sfs)"
  shows "length (index_str sfs i) = length (str_nat (length sfs)) \<and>
         set (index_str sfs i) \<subseteq> set ''0123456789'' \<and>
         (\<forall>j. 0 \<le> j \<and> j < int (length sfs) \<and> index_str sfs j = index_str sfs i \<longrightarrow> j = i)"
proof (intro conjI allI impI)
  from assms have "nat i \<le> length sfs" by simp
  then have le: "length (str_nat (nat i)) \<le> length (str_nat (length sfs))"
    by (rule length_str_nat_mono)
  with assms show "length (index_str sfs i) = length (str_nat (length sfs))"
    by (simp add: index_str_def max_digits_def format_zero_padded_nonneg)
  from assms show "set (index_str sfs i) \<subseteq> set ''0123456789''"
    using str_nat_digits [of "nat i"]
    by (auto simp: index_str_def format_zero_padded_nonneg)
next
  fix j assume j: "0 \<le> j \<and> j < int (length sfs) \<and> index_str sfs j = index_str sfs i"
  then have "decimal_value (format_zero_padded (max_digits sfs) j) =
      decimal_value (format_zero_padded (max_digits sfs) i)"
    by (simp add: index_str_def)
  moreover from j have "decimal_value (format_zero_padded (max_digits sfs) j) = nat j"
    by (simp only: decimal_value_format)
  moreover from assms have "decimal_value (format_zero_padded (max_digits sfs) i) = nat i"
    by (simp only: decimal_value_format)
  ultimately have "nat j = nat i" by simp
  with j assms show "j = i" by auto
qed

theorem index_str_fixed_width_distinct_witness:
  "length (index_str (replicate 12 ()) 3) = 2 \<and> index_str (replicate 12 ()) 3 = ''03'' \<and>
   index_str (replicate 12 ()) 11 = ''11'' \<and> index_str (replicate 12 ()) 3 \<noteq> index_str (replicate 12 ()) 11"
proof -
  have h: "1 \<le> length (replicate 12 ())" "(0::int) \<le> 3" "(3::int) < int (length (replicate 12 ()))"
    by simp_all
  note t = index_str_fixed_width_distinct [OF h]
  have s12: "str_nat 12 = ''12''" by code_simp
  have s3: "str_nat 3 = ''3''" by code_simp
  have s11: "str_nat 11 = ''11''" by code_simp
  have a: "index_str (replicate 12 ()) 3 = ''03''"
    by (simp add: index_str_def max_digits_def format_zero_padded_def s12 s3)
  have b: "index_str (replicate 12 ()) 11 = ''11''"
    by (simp add: index_str_def max_digits_def format_zero_padded_def s12 s11)
  from t have "length (index_str (replicate 12 ()) 3) = length (str_nat (length (replicate 12 ())))"
    by blast
  then have c: "length (index_str (replicate 12 ()) 3) = 2" by (simp add: s12)
  from t have "0 \<le> (11::int) \<and> (11::int) < int (length (replicate 12 ())) \<and>
      index_str (replicate 12 ()) 11 = index_str (replicate 12 ()) 3 \<longrightarrow> (11::int) = 3"
    by blast
  then have d: "index_str (replicate 12 ()) 3 \<noteq> index_str (replicate 12 ()) 11" by auto
  from a b c d show ?thesis by blast
qed

section \<open>Reserving at the start, filling within bounds\<close>

lemma reserve_then_fill_append:
  "reserve_then_fill rs (w @ w') \<longleftrightarrow>
     reserve_then_fill rs w \<and> reserve_then_fill (reserved_shapes rs w) w'"
  by (induction rs w rule: reserve_then_fill.induct) auto

lemma reserved_shapes_fills: "list_all is_fill fs \<Longrightarrow> reserved_shapes rs fs = rs"
  by (induction rs fs rule: reserved_shapes.induct) auto

lemma reserved_keys_append: "reserved_keys (w @ w') = reserved_keys w @ reserved_keys w'"
  by (induction w rule: reserved_keys.induct) auto

lemma reserved_keys_fills: "list_all is_fill fs \<Longrightarrow> reserved_keys fs = []"
  by (induction fs rule: reserved_keys.induct) auto

lemma drive_appends_fills:
  assumes "\<And>h p s. (h, p) \<in> set events \<Longrightarrow>
      \<exists>fs. writer (state_of (call h c p s)) = writer s @ fs \<and>
           list_all is_fill fs \<and> reserve_then_fill rs fs"
  shows "\<exists>fs. writer (state_of (drive c events s)) = writer s @ fs \<and>
           list_all is_fill fs \<and> reserve_then_fill rs fs"
  using assms
proof (induction events arbitrary: s)
  case Nil
  show ?case by simp
next
  case (Cons ev events)
  obtain h p where ev: "ev = (h, p)" by (cases ev)
  from Cons.prems [of h p s] ev obtain fs where
    fs: "writer (state_of (call h c p s)) = writer s @ fs" "list_all is_fill fs"
      "reserve_then_fill rs fs"
    by auto
  show ?case
  proof (cases "call h c p s")
    case (Raise e s')
    with fs ev show ?thesis by auto
  next
    case (Return s')
    have "\<exists>gs. writer (state_of (drive c events s')) = writer s' @ gs \<and>
           list_all is_fill gs \<and> reserve_then_fill rs gs"
      by (rule Cons.IH) (use Cons.prems in auto)
    then obtain gs where gs: "writer (state_of (drive c events s')) = writer s' @ gs"
      "list_all is_fill gs" "reserve_then_fill rs gs"
      by blast
    from fs Return have "writer s' = writer s @ fs" by simp
    with gs fs have "writer (state_of (drive c events s')) = writer s @ (fs @ gs) \<and>
        list_all is_fill (fs @ gs) \<and> reserve_then_fill rs (fs @ gs)"
      by (simp add: reserve_then_fill_append reserved_shapes_fills)
    with Return ev show ?thesis by (auto simp del: append_assoc)
  qed
qed

lemma run_from_on_start:
  assumes step: "\<And>h p s. returned (call OnStart c p0 s0) \<Longrightarrow> (h, p) \<in> set events \<Longrightarrow>
      \<exists>fs. writer (state_of (call h c p s)) = writer s @ fs \<and>
           list_all is_fill fs \<and>
           reserve_then_fill (reserved_shapes [] (writer (state_of (call OnStart c p0 s0)))) fs"
    and start: "reserve_then_fill [] (writer (state_of (call OnStart c p0 s0)))"
  shows "reserves_at_start_fills_within c s0 p0 events"
proof (cases "call OnStart c p0 s0")
  case (Raise e s')
  with start show ?thesis by (simp add: reserves_at_start_fills_within_def)
next
  case (Return s')
  let ?w0 = "writer s'"
  from Return have "returned (call OnStart c p0 s0)" by simp
  from drive_appends_fills [of events c "reserved_shapes [] (writer (state_of (call OnStart c p0 s0)))" s', OF step [OF this]]
  obtain fs where fs: "writer (state_of (drive c events s')) = ?w0 @ fs" "list_all is_fill fs"
    "reserve_then_fill (reserved_shapes [] ?w0) fs"
    using Return by auto
  with Return start show ?thesis
    by (simp add: reserves_at_start_fills_within_def reserve_then_fill_append)
qed

lemma position_in_Some: "position_in (Some i) (Some xs) \<longleftrightarrow> 0 \<le> i \<and> i < int (length xs)"
  by (simp add: position_in_def)

lemma within_bounds_row:
  "0 \<le> i \<Longrightarrow> i < int n \<Longrightarrow> within_bounds (IndexExpression [i] None) (n # shp)"
  by (simp add: within_bounds_def axes_of_def)

lemma within_bounds_cell:
  "within_bounds (IndexExpression [i, j] (Some [0, Suc 0])) [n, m] \<longleftrightarrow>
     0 \<le> i \<and> i < int n \<and> 0 \<le> j \<and> j < int m"
  by (auto simp: within_bounds_def axes_of_def)

lemma WriteSubjectCallback_step:
  assumes "event_in_contract p0 (h, p)" and "subject_files p0 = Some sfs"
  shows "\<exists>fs. writer (state_of (call h WriteSubjectCallback p s)) = writer s @ fs \<and>
           list_all is_fill fs \<and> reserve_then_fill [(SUBJECT, [length sfs])] fs"
proof (cases h)
  case OnSubjectStart
  with assms show ?thesis
    by (auto simp: call_def WriteSubjectCallback_def Callback_def
        WriteSubjectCallback_on_subject_start_def writer_fill_def event_in_contract_def
        position_in_Some within_bounds_row split: option.splits)
qed (use assms in \<open>auto simp: call_def WriteSubjectCallback_def Callback_def
        Callback_on_end_def Callback_on_subject_end_def Callback_on_gt_file_def
        Callback_on_image_file_def event_in_contract_def\<close>)

lemma WriteSubjectCallback_run:
  assumes "driver_contract p0 events"
  shows "reserves_at_start_fills_within WriteSubjectCallback \<lparr>writer = []\<rparr> p0 events"
proof (rule run_from_on_start)
  show "reserve_then_fill [] (writer (state_of (call OnStart WriteSubjectCallback p0 \<lparr>writer = []\<rparr>)))"
    by (simp add: call_def WriteSubjectCallback_def Callback_def WriteSubjectCallback_on_start_def
        writer_reserve_def split: option.splits)
next
  fix h p and s :: writer_holder
  assume r: "returned (call OnStart WriteSubjectCallback p0 \<lparr>writer = []\<rparr>)"
    and ev: "(h, p) \<in> set events"
  from r obtain sfs where sfs: "subject_files p0 = Some sfs"
    by (auto simp: call_def WriteSubjectCallback_def Callback_def WriteSubjectCallback_on_start_def
        split: option.splits)
  from ev assms have "event_in_contract p0 (h, p)"
    by (simp add: driver_contract_def list_all_iff)
  from WriteSubjectCallback_step [OF this sfs, of s] sfs
  show "\<exists>fs. writer (state_of (call h WriteSubjectCallback p s)) = writer s @ fs \<and>
           list_all is_fill fs \<and>
           reserve_then_fill (reserved_shapes []
             (writer (state_of (call OnStart WriteSubjectCallback p0 \<lparr>writer = []\<rparr>)))) fs"
    by (simp add: call_def WriteSubjectCallback_def Callback_def WriteSubjectCallback_on_start_def
        writer_reserve_def)
qed

lemma WriteImageInformationCallback_step:
  assumes "event_in_contract p0 (h, p)" and "subject_files p0 = Some sfs"
  shows "\<exists>fs. writer (state_of (call h WriteImageInformationCallback p s)) = writer s @ fs \<and>
           list_all is_fill fs \<and>
           reserve_then_fill [(SPACING, [length sfs, 3]), (DIRECTION, [length sfs, 9]),
             (SHAPE, [length sfs, 3])] fs"
proof (cases h)
  case OnImageFile
  with assms show ?thesis
    by (auto simp: call_def WriteImageInformationCallback_def Callback_def
        WriteImageInformationCallback_on_image_file_def writer_fill_def event_in_contract_def
        position_in_Some within_bounds_row SHAPE_def DIRECTION_def SPACING_def Let_def
        split: option.splits py_object.splits)
qed (use assms in \<open>auto simp: call_def WriteImageInformationCallback_def Callback_def
        Callback_on_end_def Callback_on_subject_end_def Callback_on_gt_file_def
        Callback_on_subject_start_def event_in_contract_def\<close>)

lemma WriteImageInformationCallback_run:
  assumes "driver_contract p0 events"
  shows "reserves_at_start_fills_within WriteImageInformationCallback
           (WriteImageInformationCallback_init []) p0 events"
proof (rule run_from_on_start)
  show "reserve_then_fill [] (writer (state_of (call OnStart WriteImageInformationCallback p0
          (WriteImageInformationCallback_init []))))"
    by (simp add: call_def WriteImageInformationCallback_def Callback_def
        WriteImageInformationCallback_on_start_def WriteImageInformationCallback_init_def
        writer_reserve_def SHAPE_def DIRECTION_def SPACING_def Let_def split: option.splits)
next
  fix h p and s :: WriteImageInformationCallback
  assume r: "returned (call OnStart WriteImageInformationCallback p0
      (WriteImageInformationCallback_init []))"
    and ev: "(h, p) \<in> set events"
  from r obtain sfs where sfs: "subject_files p0 = Some sfs"
    by (auto simp: call_def WriteImageInformationCallback_def Callback_def
        WriteImageInformationCallback_on_start_def split: option.splits)
  from ev assms have "event_in_contract p0 (h, p)"
    by (simp add: driver_contract_def list_all_iff)
  from WriteImageInformationCallback_step [OF this sfs, of s] sfs
  show "\<exists>fs. writer (state_of (call h WriteImageInformationCallback p s)) = writer s @ fs \<and>
           list_all is_fill fs \<and>
           reserve_then_fill (reserved_shapes []
             (writer (state_of (call OnStart WriteImageInformationCallback p0
                (WriteImageInformationCallback_init []))))) fs"
    by (simp add: call_def WriteImageInformationCallback_def Callback_def
        WriteImageInformationCallback_on_start_def WriteImageInformationCallback_init_def
        writer_reserve_def Let_def)
qed

lemma WriteFilesCallback_on_start_returned:
  assumes "returned (WriteFilesCallback_on_start p0 s0)"
  shows "\<exists>sfs root names gt. subject_files p0 = Some sfs \<and> get_common_path sfs = Inr root \<and>
      sequence_names p0 = Some names \<and> has_gt p0 = Some gt \<and>
      (gt \<longrightarrow> (\<exists>gnames. gt_names p0 = Some gnames)) \<and>
      writer (state_of (WriteFilesCallback_on_start p0 s0)) =
        writer s0 @ Write FILE_ROOT (VStr root) (Some (dtype_name ''str'')) #
          Reserve SEQ_FILES [length sfs, length names] (dtype_name ''str'') #
          (if gt then [Reserve GT_FILES [length sfs, length (the (gt_names p0))] (dtype_name ''str'')]
           else [])"
  using assms
  by (auto simp: WriteFilesCallback_on_start_def Let_def writer_write_def writer_reserve_def
      split: option.splits sum.splits if_splits)

lemma WriteFilesCallback_on_start_discipline:
  "reserve_then_fill [] (writer (state_of (WriteFilesCallback_on_start p0 (WriteFilesCallback_init []))))"
  by (auto simp: WriteFilesCallback_on_start_def Let_def writer_write_def writer_reserve_def
      WriteFilesCallback_init_def SEQ_FILES_def GT_FILES_def
      split: option.splits sum.splits if_splits)

lemma WriteFilesCallback_step:
  assumes "event_in_contract p0 (h, p)" and "subject_files p0 = Some sfs"
    and "sequence_names p0 = Some names"
    and "h = OnGtFile \<longrightarrow> gt \<and> gt_names p0 = Some gnames"
  shows "\<exists>fs. writer (state_of (call h (WriteFilesCallback cwd) p s)) = writer s @ fs \<and>
           list_all is_fill fs \<and>
           reserve_then_fill
             ((if gt then [(GT_FILES, [length sfs, length gnames])] else []) @
              [(SEQ_FILES, [length sfs, length names])]) fs"
proof (cases h)
  case OnImageFile
  with assms show ?thesis
    by (auto simp: call_def WriteFilesCallback_def Callback_def
        WriteFilesCallback_on_image_file_def writer_fill_def event_in_contract_def
        position_in_Some within_bounds_cell SEQ_FILES_def GT_FILES_def
        split: option.splits sum.splits)
next
  case OnGtFile
  with assms show ?thesis
    by (auto simp: call_def WriteFilesCallback_def Callback_def
        WriteFilesCallback_on_gt_file_def writer_fill_def event_in_contract_def
        position_in_Some within_bounds_cell SEQ_FILES_def GT_FILES_def
        split: option.splits sum.splits)
qed (use assms in \<open>auto simp: call_def WriteFilesCallback_def Callback_def
        Callback_on_end_def Callback_on_subject_end_def
        Callback_on_subject_start_def event_in_contract_def\<close>)

lemma WriteFilesCallback_run:
  assumes "driver_contract p0 events" and "gt_events_need_has_gt p0 events"
  shows "reserves_at_start_fills_within (WriteFilesCallback cwd)
           (WriteFilesCallback_init []) p0 events"
proof (rule run_from_on_start)
  have os: "call OnStart (WriteFilesCallback cwd) = WriteFilesCallback_on_start"
    by (simp add: call_def WriteFilesCallback_def Callback_def)
  show "reserve_then_fill [] (writer (state_of (call OnStart (WriteFilesCallback cwd) p0
          (WriteFilesCallback_init []))))"
    by (simp add: os WriteFilesCallback_on_start_discipline)
  fix h p and s :: WriteFilesCallback
  assume r: "returned (call OnStart (WriteFilesCallback cwd) p0 (WriteFilesCallback_init []))"
    and ev: "(h, p) \<in> set events"
  from r have "returned (WriteFilesCallback_on_start p0 (WriteFilesCallback_init []))"
    by (simp add: os)
  from WriteFilesCallback_on_start_returned [OF this]
  obtain sfs root names gt where st: "subject_files p0 = Some sfs"
    "sequence_names p0 = Some names" "has_gt p0 = Some gt"
    "gt \<longrightarrow> (\<exists>gnames. gt_names p0 = Some gnames)"
    "writer (state_of (WriteFilesCallback_on_start p0 (WriteFilesCallback_init []))) =
        writer (WriteFilesCallback_init []) @ Write FILE_ROOT (VStr root) (Some (dtype_name ''str'')) #
          Reserve SEQ_FILES [length sfs, length names] (dtype_name ''str'') #
          (if gt then [Reserve GT_FILES [length sfs, length (the (gt_names p0))] (dtype_name ''str'')]
           else [])"
    by blast
  from ev assms have c: "event_in_contract p0 (h, p)"
    by (simp add: driver_contract_def list_all_iff)
  from ev assms(2) st have g: "h = OnGtFile \<longrightarrow> gt \<and> gt_names p0 = Some (the (gt_names p0))"
    by (auto simp: gt_events_need_has_gt_def list_all_iff)
  from WriteFilesCallback_step [OF c st(1) st(2) g, of cwd s] st(5)
  show "\<exists>fs. writer (state_of (call h (WriteFilesCallback cwd) p s)) = writer s @ fs \<and>
           list_all is_fill fs \<and>
           reserve_then_fill (reserved_shapes []
             (writer (state_of (call OnStart (WriteFilesCallback cwd) p0
                (WriteFilesCallback_init []))))) fs"
    by (cases gt) (simp_all add: os WriteFilesCallback_init_def)
qed

lemma reserved_keys_of_run:
  assumes "reserves_at_start_fills_within c s0 p0 events"
  shows "reserved_keys (writer (state_of (drive c ((OnStart, p0) # events) s0))) =
         reserved_keys (writer (state_of (call OnStart c p0 s0)))"
proof -
  define w0 where "w0 = writer (state_of (call OnStart c p0 s0))"
  define w where "w = writer (state_of (drive c ((OnStart, p0) # events) s0))"
  from assms have a: "take (length w0) w = w0" and b: "list_all is_fill (drop (length w0) w)"
    unfolding reserves_at_start_fills_within_def Let_def w0_def w_def by blast+
  from a b obtain fs where "w = w0 @ fs" and "list_all is_fill fs"
    by (metis append_take_drop_id)
  then have "reserved_keys w = reserved_keys w0"
    by (simp add: reserved_keys_append reserved_keys_fills)
  then show ?thesis
    unfolding w0_def w_def .
qed

text \<open>
  Claim C7, as amended. In a run that starts with \<^verbatim>\<open>on_start\<close> and keeps the ordering
  contract of the driver, \<^verbatim>\<open>WriteSubjectCallback\<close> and \<^verbatim>\<open>WriteImageInformationCallback\<close>
  reserve during \<^verbatim>\<open>on_start\<close> only, reserve each of their keys exactly once when
  \<^verbatim>\<open>on_start\<close> finds the subject files, and fill only reserved keys within the reserved
  bounds. \<^verbatim>\<open>WriteFilesCallback\<close> does the same provided ground-truth events fire only in a
  run whose \<^verbatim>\<open>on_start\<close> bundle has \<^verbatim>\<open>has_gt\<close> true: it reserves \<^verbatim>\<open>meta/sequence_files\<close>
  once, and \<^verbatim>\<open>meta/gt_files\<close> once when \<^verbatim>\<open>has_gt\<close> is true.
\<close>

theorem reserve_once_at_start_then_fill_within:
  "driver_contract p0 events \<longrightarrow>
     reserves_at_start_fills_within WriteSubjectCallback \<lparr>writer = []\<rparr> p0 events \<and>
     (subject_files p0 \<noteq> None \<longrightarrow>
        reserved_keys (writer (state_of
          (drive WriteSubjectCallback ((OnStart, p0) # events) \<lparr>writer = []\<rparr>))) =
        [''meta/subjects'']) \<and>
     reserves_at_start_fills_within WriteImageInformationCallback
       (WriteImageInformationCallback_init []) p0 events \<and>
     (subject_files p0 \<noteq> None \<longrightarrow>
        reserved_keys (writer (state_of
          (drive WriteImageInformationCallback ((OnStart, p0) # events)
             (WriteImageInformationCallback_init [])))) =
        [''meta/shapes'', ''meta/directions'', ''meta/spacing'']) \<and>
     (gt_events_need_has_gt p0 events \<longrightarrow>
        reserves_at_start_fills_within (WriteFilesCallback cwd)
          (WriteFilesCallback_init []) p0 events \<and>
        (returned (WriteFilesCallback_on_start p0 (WriteFilesCallback_init [])) \<longrightarrow>
           reserved_keys (writer (state_of
             (drive (WriteFilesCallback cwd) ((OnStart, p0) # events)
                (WriteFilesCallback_init [])))) =
           ''meta/sequence_files'' #
             (if has_gt p0 = Some True then [''meta/gt_files''] else [])))"
proof (intro impI conjI)
  assume c: "driver_contract p0 events"
  show s: "reserves_at_start_fills_within WriteSubjectCallback \<lparr>writer = []\<rparr> p0 events"
    using c by (rule WriteSubjectCallback_run)
  show i: "reserves_at_start_fills_within WriteImageInformationCallback
       (WriteImageInformationCallback_init []) p0 events"
    using c by (rule WriteImageInformationCallback_run)
  {
    assume "subject_files p0 \<noteq> None"
    then obtain sfs where sfs: "subject_files p0 = Some sfs" by auto
    show "reserved_keys (writer (state_of
          (drive WriteSubjectCallback ((OnStart, p0) # events) \<lparr>writer = []\<rparr>))) =
        [''meta/subjects'']"
      unfolding reserved_keys_of_run [OF s] using sfs
      by (simp add: call_def WriteSubjectCallback_def Callback_def
          WriteSubjectCallback_on_start_def writer_reserve_def SUBJECT_def)
    show "reserved_keys (writer (state_of
          (drive WriteImageInformationCallback ((OnStart, p0) # events)
             (WriteImageInformationCallback_init [])))) =
        [''meta/shapes'', ''meta/directions'', ''meta/spacing'']"
      unfolding reserved_keys_of_run [OF i] using sfs
      by (simp add: call_def WriteImageInformationCallback_def Callback_def
          WriteImageInformationCallback_on_start_def WriteImageInformationCallback_init_def
          writer_reserve_def SHAPE_def DIRECTION_def SPACING_def Let_def)
  }
  assume g: "gt_events_need_has_gt p0 events"
  show f: "reserves_at_start_fills_within (WriteFilesCallback cwd)
          (WriteFilesCallback_init []) p0 events"
    using c g by (rule WriteFilesCallback_run)
  assume r: "returned (WriteFilesCallback_on_start p0 (WriteFilesCallback_init []))"
  have os: "call OnStart (WriteFilesCallback cwd) = WriteFilesCallback_on_start"
    by (simp add: call_def WriteFilesCallback_def Callback_def)
  from WriteFilesCallback_on_start_returned [OF r]
  show "reserved_keys (writer (state_of
             (drive (WriteFilesCallback cwd) ((OnStart, p0) # events)
                (WriteFilesCallback_init [])))) =
           ''meta/sequence_files'' #
             (if has_gt p0 = Some True then [''meta/gt_files''] else [])"
    unfolding reserved_keys_of_run [OF f] os
    by (auto simp: WriteFilesCallback_init_def SEQ_FILES_def GT_FILES_def)
qed

theorem reserve_once_at_start_then_fill_within_witness:
  "driver_contract
     (empty_params\<lparr>subject_files := Some [\<lparr>get_sequences = [(''t1'', ''/a/b/c.txt''), (''t2'', ''/a/b/d.txt'')], get_gts = Some [(''g'', ''/a/b/g.txt'')]\<rparr>],
        sequence_names := Some [''t1'', ''t2''], gt_names := Some [''g''],
        has_gt := Some True\<rparr>)
     [(OnSubjectStart, empty_params\<lparr>subject := Some ''s0'', subject_index := Some 0\<rparr>),
      (OnImageFile, empty_params\<lparr>file' := Some ''/a/b/c.txt'', subject_index := Some 0,
         sequence_index := Some 0, raw_image := Some (Image \<lparr>GetSize = [4, 5, 6], GetDirection = [], GetSpacing = []\<rparr>)\<rparr>),
      (OnImageFile, empty_params\<lparr>file' := Some ''/a/b/d.txt'', subject_index := Some 0,
         sequence_index := Some 1, raw_image := Some (Image \<lparr>GetSize = [4, 5, 6], GetDirection = [], GetSpacing = []\<rparr>)\<rparr>),
      (OnGtFile, empty_params\<lparr>file' := Some ''/a/b/g.txt'', subject_index := Some 0,
         gt_index := Some 0\<rparr>)] \<and>
   reserves_at_start_fills_within WriteSubjectCallback \<lparr>writer = []\<rparr>
     (empty_params\<lparr>subject_files := Some [\<lparr>get_sequences = [(''t1'', ''/a/b/c.txt''), (''t2'', ''/a/b/d.txt'')], get_gts = Some [(''g'', ''/a/b/g.txt'')]\<rparr>],
        sequence_names := Some [''t1'', ''t2''], gt_names := Some [''g''],
        has_gt := Some True\<rparr>)
     [(OnSubjectStart, empty_params\<lparr>subject := Some ''s0'', subject_index := Some 0\<rparr>),
      (OnImageFile, empty_params\<lparr>file' := Some ''/a/b/c.txt'', subject_index := Some 0,
         sequence_index := Some 0, raw_image := Some (Image \<lparr>GetSize = [4, 5, 6], GetDirection = [], GetSpacing = []\<rparr>)\<rparr>),
      (OnImageFile, empty_params\<lparr>file' := Some ''/a/b/d.txt'', subject_index := Some 0,
         sequence_index := Some 1, raw_image := Some (Image \<lparr>GetSize = [4, 5, 6], GetDirection = [], GetSpacing = []\<rparr>)\<rparr>),
      (OnGtFile, empty_params\<lparr>file' := Some ''/a/b/g.txt'', subject_index := Some 0,
         gt_index := Some 0\<rparr>)] \<and>
   reserves_at_start_fills_within WriteImageInformationCallback
     (WriteImageInformationCallback_init [])
     (empty_params\<lparr>subject_files := Some [\<lparr>get_sequences = [(''t1'', ''/a/b/c.txt''), (''t2'', ''/a/b/d.txt'')], get_gts = Some [(''g'', ''/a/b/g.txt'')]\<rparr>],
        sequence_names := Some [''t1'', ''t2''], gt_names := Some [''g''],
        has_gt := Some True\<rparr>)
     [(OnSubjectStart, empty_params\<lparr>subject := Some ''s0'', subject_index := Some 0\<rparr>),
      (OnImageFile, empty_params\<lparr>file' := Some ''/a/b/c.txt'', subject_index := Some 0,
         sequence_index := Some 0, raw_image := Some (Image \<lparr>GetSize = [4, 5, 6], GetDirection = [], GetSpacing = []\<rparr>)\<rparr>),
      (OnImageFile, empty_params\<lparr>file' := Some ''/a/b/d.txt'', subject_index := Some 0,
         sequence_index := Some 1, raw_image := Some (Image \<lparr>GetSize = [4, 5, 6], GetDirection = [], GetSpacing = []\<rparr>)\<rparr>),
      (OnGtFile, empty_params\<lparr>file' := Some ''/a/b/g.txt'', subject_index := Some 0,
         gt_index := Some 0\<rparr>)] \<and>
   reserves_at_start_fills_within (WriteFilesCallback ''/home'') (WriteFilesCallback_init [])
     (empty_params\<lparr>subject_files := Some [\<lparr>get_sequences = [(''t1'', ''/a/b/c.txt''), (''t2'', ''/a/b/d.txt'')], get_gts = Some [(''g'', ''/a/b/g.txt'')]\<rparr>],
        sequence_names := Some [''t1'', ''t2''], gt_names := Some [''g''],
        has_gt := Some True\<rparr>)
     [(OnSubjectStart, empty_params\<lparr>subject := Some ''s0'', subject_index := Some 0\<rparr>),
      (OnImageFile, empty_params\<lparr>file' := Some ''/a/b/c.txt'', subject_index := Some 0,
         sequence_index := Some 0, raw_image := Some (Image \<lparr>GetSize = [4, 5, 6], GetDirection = [], GetSpacing = []\<rparr>)\<rparr>),
      (OnImageFile, empty_params\<lparr>file' := Some ''/a/b/d.txt'', subject_index := Some 0,
         sequence_index := Some 1, raw_image := Some (Image \<lparr>GetSize = [4, 5, 6], GetDirection = [], GetSpacing = []\<rparr>)\<rparr>),
      (OnGtFile, empty_params\<lparr>file' := Some ''/a/b/g.txt'', subject_index := Some 0,
         gt_index := Some 0\<rparr>)] \<and>
   reserved_keys (writer (state_of (drive (WriteFilesCallback ''/home'')
     ((OnStart, (empty_params\<lparr>subject_files := Some [\<lparr>get_sequences = [(''t1'', ''/a/b/c.txt''), (''t2'', ''/a/b/d.txt'')], get_gts = Some [(''g'', ''/a/b/g.txt'')]\<rparr>],
        sequence_names := Some [''t1'', ''t2''], gt_names := Some [''g''],
        has_gt := Some True\<rparr>)) #
      [(OnSubjectStart, empty_params\<lparr>subject := Some ''s0'', subject_index := Some 0\<rparr>),
      (OnImageFile, empty_params\<lparr>file' := Some ''/a/b/c.txt'', subject_index := Some 0,
         sequence_index := Some 0, raw_image := Some (Image \<lparr>GetSize = [4, 5, 6], GetDirection = [], GetSpacing = []\<rparr>)\<rparr>),
      (OnImageFile, empty_params\<lparr>file' := Some ''/a/b/d.txt'', subject_index := Some 0,
         sequence_index := Some 1, raw_image := Some (Image \<lparr>GetSize = [4, 5, 6], GetDirection = [], GetSpacing = []\<rparr>)\<rparr>),
      (OnGtFile, empty_params\<lparr>file' := Some ''/a/b/g.txt'', subject_index := Some 0,
         gt_index := Some 0\<rparr>)])
     (WriteFilesCallback_init [])))) = [''meta/sequence_files'', ''meta/gt_files'']"
proof -
  let ?p0 = "(empty_params\<lparr>subject_files := Some [\<lparr>get_sequences = [(''t1'', ''/a/b/c.txt''), (''t2'', ''/a/b/d.txt'')], get_gts = Some [(''g'', ''/a/b/g.txt'')]\<rparr>],
        sequence_names := Some [''t1'', ''t2''], gt_names := Some [''g''],
        has_gt := Some True\<rparr>)"
  let ?evs = "[(OnSubjectStart, empty_params\<lparr>subject := Some ''s0'', subject_index := Some 0\<rparr>),
      (OnImageFile, empty_params\<lparr>file' := Some ''/a/b/c.txt'', subject_index := Some 0,
         sequence_index := Some 0, raw_image := Some (Image \<lparr>GetSize = [4, 5, 6], GetDirection = [], GetSpacing = []\<rparr>)\<rparr>),
      (OnImageFile, empty_params\<lparr>file' := Some ''/a/b/d.txt'', subject_index := Some 0,
         sequence_index := Some 1, raw_image := Some (Image \<lparr>GetSize = [4, 5, 6], GetDirection = [], GetSpacing = []\<rparr>)\<rparr>),
      (OnGtFile, empty_params\<lparr>file' := Some ''/a/b/g.txt'', subject_index := Some 0,
         gt_index := Some 0\<rparr>)]"
  note t = reserve_once_at_start_then_fill_within
    [where ?p0.0 = ?p0 and events = ?evs and cwd = "''/home''"]
  have c: "driver_contract ?p0 ?evs"
    by code_simp
  have g: "gt_events_need_has_gt ?p0 ?evs"
    by code_simp
  have r: "returned (WriteFilesCallback_on_start ?p0 (WriteFilesCallback_init []))"
    by code_simp
  have h: "has_gt ?p0 = Some True"
    by (simp add: empty_params_def)
  from t c g r h show ?thesis
    by simp
qed

text \<open>
  The claim as stated fails for \<^verbatim>\<open>WriteFilesCallback\<close>: \<^verbatim>\<open>on_start\<close> reserves
  \<^verbatim>\<open>meta/gt_files\<close> only when \<^verbatim>\<open>has_gt\<close> is true, \<^verbatim>\<open>on_gt_file\<close> fills it whenever it is
  called. A run within the contract, with \<^verbatim>\<open>has_gt\<close> false and one ground-truth event, fills
  a key that was never reserved.
\<close>

theorem reserve_once_at_start_then_fill_within_counterexample:
  "driver_contract
     (empty_params\<lparr>subject_files := Some [\<lparr>get_sequences = [(''t1'', ''/a/b/c.txt''), (''t2'', ''/a/b/d.txt'')], get_gts = None\<rparr>],
        sequence_names := Some [''t1'', ''t2''], gt_names := Some [''g''],
        has_gt := Some False\<rparr>)
     [(OnGtFile, (empty_params\<lparr>file' := Some ''/a/b/g.txt'', subject_index := Some 0,
         gt_index := Some 0\<rparr>))] \<and>
   writer (state_of (drive (WriteFilesCallback ''/home'')
     [(OnStart, (empty_params\<lparr>subject_files := Some [\<lparr>get_sequences = [(''t1'', ''/a/b/c.txt''), (''t2'', ''/a/b/d.txt'')], get_gts = None\<rparr>],
        sequence_names := Some [''t1'', ''t2''], gt_names := Some [''g''],
        has_gt := Some False\<rparr>)),
      (OnGtFile, (empty_params\<lparr>file' := Some ''/a/b/g.txt'', subject_index := Some 0,
         gt_index := Some 0\<rparr>))]
     (WriteFilesCallback_init []))) =
   [Write ''meta/file_root'' (VStr ''/a/b'') (Some (dtype_name ''str'')),
    Reserve ''meta/sequence_files'' [1, 2] (dtype_name ''str''),
    Fill ''meta/gt_files'' (VStr ''g.txt'') (IndexExpression [0, 0] (Some [0, 1]))] \<and>
   \<not> reserve_then_fill []
     [Write ''meta/file_root'' (VStr ''/a/b'') (Some (dtype_name ''str'')),
    Reserve ''meta/sequence_files'' [1, 2] (dtype_name ''str''),
    Fill ''meta/gt_files'' (VStr ''g.txt'') (IndexExpression [0, 0] (Some [0, 1]))]"
  by code_simp

section \<open>Properties of the path functions\<close>

lemma split_sep_not_Nil: "split_sep s \<noteq> []"
  by (induction s) (auto split: list.splits)

lemma split_sep_no_sep: "c \<in> set (split_sep s) \<Longrightarrow> CHR ''/'' \<notin> set c"
proof (induction s arbitrary: c)
  case Nil
  then show ?case by simp
next
  case (Cons a s)
  then show ?case
    by (cases "split_sep s") (auto split: if_splits)
qed

lemma split_sep_single: "CHR ''/'' \<notin> set a \<Longrightarrow> split_sep a = [a]"
  by (induction a) auto

lemma split_sep_append_sep:
  "CHR ''/'' \<notin> set a \<Longrightarrow> split_sep (a @ CHR ''/'' # b) = a # split_sep b"
  by (induction a) auto

lemma split_sep_append:
  "split_sep (a @ CHR ''/'' # b) = split_sep a @ split_sep b"
proof (induction a)
  case Nil
  show ?case by simp
next
  case (Cons x a)
  show ?case
  proof (cases "x = CHR ''/''")
    case True
    with Cons show ?thesis by simp
  next
    case False
    obtain y ys where "split_sep a = y # ys"
      using split_sep_not_Nil [of a] by (cases "split_sep a") auto
    with Cons False show ?thesis by simp
  qed
qed

lemma path_components_clean: "c \<in> set (path_components p) \<Longrightarrow> clean c"
  by (auto simp: path_components_def clean_def curdir_def dest: split_sep_no_sep)

lemma split_sep_join_sep:
  "cs \<noteq> [] \<Longrightarrow> \<forall>c\<in>set cs. CHR ''/'' \<notin> set c \<Longrightarrow> split_sep (join_sep cs) = cs"
proof (induction cs rule: join_sep.induct)
  case 1
  then show ?case by simp
next
  case (2 x)
  then show ?case by (simp add: split_sep_single)
next
  case (3 x y ys)
  then show ?case by (simp add: sep_def split_sep_append_sep)
qed

lemma path_components_append_sep:
  "path_components (a @ CHR ''/'' # b) = path_components a @ path_components b"
  by (simp add: path_components_def split_sep_append)

lemma path_components_Nil: "path_components [] = []"
  by (simp add: path_components_def)

lemma path_components_join_sep:
  "\<forall>c\<in>set cs. clean c \<Longrightarrow> path_components (join_sep cs) = cs"
proof (cases "cs = []")
  case True
  then show ?thesis by (simp add: path_components_def)
next
  case False
  assume c: "\<forall>c\<in>set cs. clean c"
  with False have "split_sep (join_sep cs) = cs"
    by (intro split_sep_join_sep) (auto simp: clean_def)
  with c show ?thesis
    by (auto simp: path_components_def clean_def curdir_def filter_id_conv)
qed

lemma path_components_sep_join_sep:
  "\<forall>c\<in>set cs. clean c \<Longrightarrow> path_components (sep @ join_sep cs) = cs"
  using path_components_append_sep [of "[]" "join_sep cs"]
  by (simp add: sep_def path_components_Nil path_components_join_sep)

lemma take1_join_sep: "\<forall>c\<in>set cs. clean c \<Longrightarrow> take 1 (join_sep cs) \<noteq> sep"
proof (induction cs rule: join_sep.induct)
  case 1
  show ?case by (simp add: sep_def)
next
  case (2 x)
  then show ?case by (cases x) (auto simp: clean_def sep_def)
next
  case (3 x y ys)
  then show ?case by (cases x) (auto simp: clean_def sep_def)
qed

lemma py_min_in: "py_min x xs \<in> set (x # xs)"
  unfolding py_min_def by (induction xs arbitrary: x) (auto split: if_splits)

lemma foldl_min_le_start: "foldl (\<lambda>m y. if y < m then y else m) x xs \<le> (x::'a::linorder)"
proof (induction xs arbitrary: x)
  case Nil
  show ?case by simp
next
  case (Cons a xs)
  show ?case using Cons [of "if a < x then a else x"] by (auto split: if_splits)
qed

lemma py_min_le: "y \<in> set (x # xs) \<Longrightarrow> py_min x xs \<le> y"
  unfolding py_min_def
proof (induction xs arbitrary: x)
  case Nil
  then show ?case by simp
next
  case (Cons a xs)
  show ?case
  proof (cases "y \<in> set xs")
    case True
    then show ?thesis using Cons.IH [of "if a < x then a else x"] by simp
  next
    case False
    with Cons.prems have "y = x \<or> y = a" by auto
    then show ?thesis
      using foldl_min_le_start [of "if a < x then a else x" xs] by (auto split: if_splits)
  qed
qed

lemma py_max_in: "py_max x xs \<in> set (x # xs)"
  unfolding py_max_def by (induction xs arbitrary: x) (auto split: if_splits)

lemma foldl_max_ge_start: "(x::'a::linorder) \<le> foldl (\<lambda>m y. if m < y then y else m) x xs"
proof (induction xs arbitrary: x)
  case Nil
  show ?case by simp
next
  case (Cons a xs)
  show ?case using Cons [of "if x < a then a else x"] by (auto split: if_splits)
qed

lemma py_max_ge: "y \<in> set (x # xs) \<Longrightarrow> y \<le> py_max x xs"
  unfolding py_max_def
proof (induction xs arbitrary: x)
  case Nil
  then show ?case by simp
next
  case (Cons a xs)
  show ?case
  proof (cases "y \<in> set xs")
    case True
    then show ?thesis using Cons.IH [of "if x < a then a else x"] by simp
  next
    case False
    with Cons.prems have "y = x \<or> y = a" by auto
    then show ?thesis
      using foldl_max_ge_start [of "if x < a then a else x" xs] by (auto split: if_splits)
  qed
qed

lemma common_loop_le:
  "s1 \<le> s2 \<Longrightarrow> common_loop s1 s2 = Inr (longest_common_prefix s1 s2)"
  for s1 :: "'a::linorder list"
  by (induction s1 s2 rule: common_loop.induct) auto

lemma common_prefix_between:
  "s1 \<le> s \<Longrightarrow> s \<le> s2 \<Longrightarrow> prefix (longest_common_prefix s1 s2) s"
  for s :: "'a::linorder list"
proof (induction s1 s2 arbitrary: s rule: longest_common_prefix.induct)
  case (1 x xs y ys)
  show ?case
  proof (cases "x = y")
    case False
    then show ?thesis by simp
  next
    case True
    from "1.prems" obtain z zs where s: "s = z # zs" by (cases s) auto
    with "1.prems" True have "z = x" by auto
    with "1.prems" s True have "xs \<le> zs" "zs \<le> ys" by auto
    with "1.IH" True have "prefix (longest_common_prefix xs ys) zs" by simp
    with True s \<open>z = x\<close> show ?thesis by simp
  qed
qed simp_all

lemma min_max_common_prefix:
  fixes x :: "'a::linorder list"
  shows "\<exists>l. common_loop (py_min x xs) (py_max x xs) = Inr l \<and>
             greatest_common_prefix l (set (x # xs))"
proof -
  let ?s1 = "py_min x xs" and ?s2 = "py_max x xs"
  have le: "?s1 \<le> ?s2"
    using py_min_le [of x x xs] py_max_ge [of x x xs] by simp
  have "greatest_common_prefix (longest_common_prefix ?s1 ?s2) (set (x # xs))"
    unfolding greatest_common_prefix_def
  proof (intro conjI ballI allI impI)
    fix s assume "s \<in> set (x # xs)"
    then show "prefix (longest_common_prefix ?s1 ?s2) s"
      by (intro common_prefix_between py_min_le py_max_ge)
  next
    fix l' assume "\<forall>s\<in>set (x # xs). prefix l' s"
    then have "prefix l' ?s1" "prefix l' ?s2"
      using py_min_in [of x xs] py_max_in [of x xs] by blast+
    then show "prefix l' (longest_common_prefix ?s1 ?s2)"
      by (rule longest_common_prefix_max_prefix)
  qed
  with le show ?thesis by (simp add: common_loop_le)
qed

lemma remdups_all_equal:
  assumes "xs \<noteq> []" and "\<forall>x\<in>set xs. x = b"
  shows "remdups xs = [b]"
  using assms
proof (induction xs)
  case Nil
  then show ?case by simp
next
  case (Cons a xs)
  from Cons.prems have ab: "a = b" by simp
  show ?case
  proof (cases "xs = []")
    case True
    with ab show ?thesis by simp
  next
    case False
    then obtain y ys where "xs = y # ys" by (cases xs) blast+
    with Cons.prems have "b \<in> set xs" by simp
    moreover from False Cons have "remdups xs = [b]" by simp
    ultimately show ?thesis using ab by simp
  qed
qed

lemma take1_rooted:
  "\<forall>c\<in>set l. clean c \<Longrightarrow> (take 1 ((if b then sep else []) @ join_sep l) = sep) = b"
  using take1_join_sep [of l] by (simp add: sep_def)

lemma path_components_rooted:
  "\<forall>c\<in>set l. clean c \<Longrightarrow> path_components ((if b then sep else []) @ join_sep l) = l"
  by (simp add: path_components_sep_join_sep path_components_join_sep)

lemma normal_path_rooted:
  assumes "\<forall>c\<in>set l. clean c"
  shows "normal_path ((if b then sep else []) @ join_sep l)"
  unfolding normal_path_def
  by (simp only: take1_rooted [OF assms] path_components_rooted [OF assms])

lemma commonpath_greatest:
  assumes "paths \<noteq> []" and "\<forall>p\<in>set paths. (take 1 p = sep) = b"
  shows "\<exists>r. commonpath paths = Inr r \<and> normal_path r \<and> (take 1 r = sep) = b \<and>
             greatest_common_prefix (path_components r) (path_components ` set paths)"
proof -
  from assms(1) obtain p ps where paths: "paths = p # ps" by (cases paths) auto
  from assms have rd: "remdups (map (\<lambda>q. take 1 q = sep) paths) = [b]"
    by (intro remdups_all_equal) auto
  from min_max_common_prefix [of "path_components p" "map path_components ps"]
  obtain l where l: "common_loop (py_min (path_components p) (map path_components ps))
        (py_max (path_components p) (map path_components ps)) = Inr l"
      "greatest_common_prefix l (set (path_components p # map path_components ps))"
    by blast
  from l(2) have "prefix l (path_components p)"
    by (simp add: greatest_common_prefix_def)
  then have "set l \<subseteq> set (path_components p)"
    by (rule set_mono_prefix)
  then have cl: "\<forall>c\<in>set l. clean c"
    using path_components_clean by blast
  let ?r = "(if b then sep else []) @ join_sep l"
  have cp: "commonpath paths = Inr ?r"
    using l(1) rd [unfolded paths] by (simp add: commonpath_def paths Let_def)
  have pc: "path_components ?r = l"
    using cl by (rule path_components_rooted)
  have "set (path_components p # map path_components ps) = path_components ` set paths"
    by (simp add: paths)
  with l(2) pc have "greatest_common_prefix (path_components ?r) (path_components ` set paths)"
    by simp
  moreover have "normal_path ?r"
    using cl by (rule normal_path_rooted)
  moreover have "(take 1 ?r = sep) = b"
    using cl by (rule take1_rooted)
  ultimately show ?thesis using cp by blast
qed

lemma list_all2_right: "list_all2 P xs ys \<Longrightarrow> \<forall>y\<in>set ys. \<exists>x\<in>set xs. P x y"
  by (induction rule: list_all2_induct) auto

lemma list_all2_left: "list_all2 P xs ys \<Longrightarrow> \<forall>x\<in>set xs. \<exists>y\<in>set ys. P x y"
  by (induction rule: list_all2_induct) auto

lemma map_raising_subject_common:
  assumes "\<forall>sf\<in>set sfs. all_files sf \<noteq> []"
    and "\<forall>sf\<in>set sfs. \<forall>f\<in>set (all_files sf). (take 1 f = sep) = b"
  shows "\<exists>rs. map_raising get_subject_common sfs = Inr rs \<and>
      list_all2 (subject_common b) sfs rs"
  using assms
proof (induction sfs)
  case Nil
  show ?case by simp
next
  case (Cons sf sfs)
  from Cons.prems have "all_files sf \<noteq> []" "\<forall>f\<in>set (all_files sf). (take 1 f = sep) = b"
    by simp_all
  from commonpath_greatest [OF this]
  obtain r where r: "get_subject_common sf = Inr r" "subject_common b sf r"
    unfolding get_subject_common_def subject_common_def by blast
  from Cons.prems have p1: "\<forall>sf\<in>set sfs. all_files sf \<noteq> []"
    and p2: "\<forall>sf\<in>set sfs. \<forall>f\<in>set (all_files sf). (take 1 f = sep) = b"
    by simp_all
  from Cons.IH [OF p1 p2] obtain rs where rs: "map_raising get_subject_common sfs = Inr rs"
    "list_all2 (subject_common b) sfs rs"
    by blast
  have "map_raising get_subject_common (sf # sfs) = Inr (r # rs)"
    by (simp add: r(1) rs(1))
  moreover have "list_all2 (subject_common b) (sf # sfs) (r # rs)"
    using r(2) rs(2) by simp
  ultimately show ?case by blast
qed

lemma get_common_path_greatest:
  assumes ne: "sfs \<noteq> []" and files: "\<forall>sf\<in>set sfs. all_files sf \<noteq> []"
    and ab: "\<forall>sf\<in>set sfs. \<forall>f\<in>set (all_files sf). (take 1 f = sep) = b"
  shows "\<exists>r. get_common_path sfs = Inr r \<and> normal_path r \<and> (take 1 r = sep) = b \<and>
      greatest_common_prefix (path_components r)
        (path_components ` (\<Union>sf\<in>set sfs. set (all_files sf)))"
proof -
  from map_raising_subject_common [OF files ab]
  obtain rs where rs: "map_raising get_subject_common sfs = Inr rs"
    "list_all2 (subject_common b) sfs rs"
    by blast
  from rs(2) ne have rne: "rs \<noteq> []" by (cases sfs) (auto simp: list_all2_Cons1)
  have each: "\<forall>r\<in>set rs. \<exists>sf\<in>set sfs. subject_common b sf r"
    using rs(2) by (rule list_all2_right)
  have each': "\<forall>sf\<in>set sfs. \<exists>r\<in>set rs. subject_common b sf r"
    using rs(2) by (rule list_all2_left)
  have rab: "\<forall>r\<in>set rs. (take 1 r = sep) = b"
  proof
    fix r assume "r \<in> set rs"
    with each obtain sf where "subject_common b sf r" by blast
    then show "(take 1 r = sep) = b" by (simp add: subject_common_def)
  qed
  from commonpath_greatest [OF rne rab]
  obtain r where r: "commonpath rs = Inr r" "normal_path r" "(take 1 r = sep) = b"
    "greatest_common_prefix (path_components r) (path_components ` set rs)"
    by blast
  have "greatest_common_prefix (path_components r)
      (path_components ` (\<Union>sf\<in>set sfs. set (all_files sf)))"
    unfolding greatest_common_prefix_def
  proof (intro conjI ballI allI impI)
    fix s assume "s \<in> path_components ` (\<Union>sf\<in>set sfs. set (all_files sf))"
    then obtain sf f where sf: "sf \<in> set sfs" "f \<in> set (all_files sf)" "s = path_components f"
      by blast
    from each' sf(1) obtain q where q: "q \<in> set rs" "subject_common b sf q"
      by blast
    from r(4) q(1) have "prefix (path_components r) (path_components q)"
      by (simp add: greatest_common_prefix_def)
    moreover from q(2) sf(2,3) have "prefix (path_components q) s"
      by (simp add: subject_common_def greatest_common_prefix_def)
    ultimately show "prefix (path_components r) s" by (rule prefix_order.trans)
  next
    fix l' assume a: "\<forall>s\<in>path_components ` (\<Union>sf\<in>set sfs. set (all_files sf)). prefix l' s"
    have "\<forall>s\<in>path_components ` set rs. prefix l' s"
    proof
      fix s assume "s \<in> path_components ` set rs"
      then obtain q where q: "q \<in> set rs" "s = path_components q" by blast
      with each obtain sf where k: "sf \<in> set sfs" "subject_common b sf q"
        by blast
      from a k(1) have "\<forall>s\<in>path_components ` set (all_files sf). prefix l' s" by blast
      with k(2) have "prefix l' (path_components q)"
        by (simp add: subject_common_def greatest_common_prefix_def)
      with q(2) show "prefix l' s" by simp
    qed
    with r(4) show "prefix l' (path_components r)" by (simp add: greatest_common_prefix_def)
  qed
  moreover have "get_common_path sfs = Inr r"
    using rne by (cases rs) (simp_all add: get_common_path_def rs(1) r(1) [symmetric])
  ultimately show ?thesis using r(2,3) by blast
qed

lemma normpath_loop_skips:
  "normpath_loop i xs nc =
     normpath_loop i (filter (\<lambda>c. c \<noteq> [] \<and> c \<noteq> curdir) xs) nc"
  by (induction i xs nc rule: normpath_loop.induct) simp_all

lemma normpath_loop_path_components:
  "normpath_loop i (split_sep p) nc = normpath_loop i (path_components p) nc"
  unfolding path_components_def by (rule normpath_loop_skips)

lemma normpath_loop_rooted:
  "i \<noteq> 0 \<Longrightarrow> normpath_loop i xs nc = normpath_loop 1 xs nc"
  by (induction i xs nc rule: normpath_loop.induct) simp_all

lemma normpath_loop_subset:
  "set (normpath_loop i xs nc) \<subseteq> set nc \<union> {c \<in> set xs. c \<noteq> [] \<and> c \<noteq> curdir}"
proof (induction i xs nc rule: normpath_loop.induct)
  case (1 i nc)
  show ?case by simp
next
  case (2 i c cs nc)
  let ?S = "{x \<in> set cs. x \<noteq> [] \<and> x \<noteq> curdir}"
  let ?T = "{x \<in> set (c # cs). x \<noteq> [] \<and> x \<noteq> curdir}"
  have ST: "?S \<subseteq> ?T" by auto
  show ?case
  proof (cases "c = [] \<or> c = curdir")
    case True
    with "2.IH"(1) have "set (normpath_loop i cs nc) \<subseteq> set nc \<union> ?S" by simp
    moreover from True have "normpath_loop i (c # cs) nc = normpath_loop i cs nc" by simp
    ultimately show ?thesis using ST by auto
  next
    case skip: False
    show ?thesis
    proof (cases "c \<noteq> pardir \<or> (i = 0 \<and> nc = []) \<or> (nc \<noteq> [] \<and> last nc = pardir)")
      case True
      with skip "2.IH"(2) have "set (normpath_loop i cs (nc @ [c])) \<subseteq> set (nc @ [c]) \<union> ?S"
        by simp
      moreover from skip True
      have "normpath_loop i (c # cs) nc = normpath_loop i cs (nc @ [c])" by simp
      moreover from skip have "set (nc @ [c]) \<subseteq> set nc \<union> ?T" by auto
      ultimately show ?thesis using ST by auto
    next
      case push: False
      show ?thesis
      proof (cases "nc \<noteq> []")
        case True
        with skip push "2.IH"(3)
        have "set (normpath_loop i cs (butlast nc)) \<subseteq> set (butlast nc) \<union> ?S"
          by simp
        moreover from skip push True
        have "normpath_loop i (c # cs) nc = normpath_loop i cs (butlast nc)" by simp
        moreover have "set (butlast nc) \<subseteq> set nc" by (auto dest: in_set_butlastD)
        ultimately show ?thesis using ST by auto
      next
        case False
        with skip push "2.IH"(4) have "set (normpath_loop i cs nc) \<subseteq> set nc \<union> ?S"
          by simp
        moreover from skip push False
        have "normpath_loop i (c # cs) nc = normpath_loop i cs nc" by simp
        ultimately show ?thesis using ST by auto
      qed
    qed
  qed
qed

lemma normpath_loop_clean:
  "\<forall>c\<in>set (normpath_loop i (path_components p) []). clean c"
  using normpath_loop_subset [of i "path_components p" "[]"] path_components_clean
  by auto

lemma nonempty_parts_join_sep:
  assumes "\<forall>c\<in>set cs. clean c"
  shows "filter (\<lambda>x. x \<noteq> []) (split_sep (join_sep cs)) = cs"
proof (cases "cs = []")
  case True
  then show ?thesis by simp
next
  case False
  with assms have "split_sep (join_sep cs) = cs"
    by (intro split_sep_join_sep) (auto simp: clean_def)
  with assms show ?thesis
    by (auto simp: clean_def filter_id_conv)
qed

lemma startswith_sep: "startswith p sep \<longleftrightarrow> take 1 p = sep"
  by (simp add: startswith_def sep_def)

lemma startswith_sep_Cons: "startswith p sep \<longleftrightarrow> (\<exists>q. p = CHR ''/'' # q)"
  by (cases p) (auto simp: startswith_def sep_def)

lemma normpath_parts:
  assumes "startswith p sep"
  shows "filter (\<lambda>x. x \<noteq> []) (split_sep (normpath p)) =
           normpath_loop 1 (path_components p) []"
proof -
  let ?n = "normpath_loop 1 (path_components p) []"
  let ?i = "if startswith p (sep @ sep) \<and> \<not> startswith p (sep @ sep @ sep) then 2 else (1::nat)"
  from assms obtain q where p: "p = CHR ''/'' # q"
    by (auto simp: startswith_sep_Cons)
  have i: "?i \<noteq> 0" by simp
  have loop: "normpath_loop ?i (split_sep p) [] = ?n"
    unfolding normpath_loop_path_components by (rule normpath_loop_rooted [OF i])
  have np: "normpath p = concat (replicate ?i sep) @ join_sep ?n"
    using assms p loop by (simp add: normpath_def Let_def sep_def)
  have cl: "\<forall>c\<in>set ?n. clean c"
    by (rule normpath_loop_clean)
  have "filter (\<lambda>x. x \<noteq> []) (split_sep (concat (replicate ?i sep) @ join_sep ?n)) =
      filter (\<lambda>x. x \<noteq> []) (split_sep (join_sep ?n))"
    by (simp add: sep_def numeral_2_eq_2)
  with np cl show ?thesis
    by (simp only: nonempty_parts_join_sep)
qed

lemma join_relative:
  assumes "startswith cwd sep" and "\<not> startswith x sep"
  shows "startswith (join cwd [x]) sep \<and>
         path_components (join cwd [x]) = path_components cwd @ path_components x"
proof -
  from assms(1) obtain q where cwd: "cwd = CHR ''/'' # q"
    by (auto simp: startswith_sep_Cons)
  show ?thesis
  proof (cases "endswith cwd sep")
    case True
    then obtain c where c: "cwd = c @ [CHR ''/'']"
      by (cases cwd rule: rev_cases) (auto simp: endswith_def sep_def)
    have j: "join cwd [x] = cwd @ x"
      using assms(2) True by (simp add: join_def)
    have "path_components (c @ CHR ''/'' # []) = path_components c"
      by (simp only: path_components_append_sep path_components_Nil append_Nil2)
    then have 1: "path_components cwd = path_components c"
      by (simp add: c)
    have "path_components (c @ CHR ''/'' # x) = path_components c @ path_components x"
      by (rule path_components_append_sep)
    then have 2: "path_components (cwd @ x) = path_components c @ path_components x"
      by (simp add: c)
    have 3: "startswith (cwd @ x) sep"
      by (simp add: cwd startswith_def sep_def)
    from 1 2 3 j show ?thesis by simp
  next
    case False
    with assms(2) cwd have j: "join cwd [x] = cwd @ CHR ''/'' # x"
      by (simp add: join_def sep_def)
    have 1: "path_components (cwd @ CHR ''/'' # x) = path_components cwd @ path_components x"
      by (rule path_components_append_sep)
    have 2: "startswith (cwd @ CHR ''/'' # x) sep"
      by (simp add: cwd startswith_def sep_def)
    from 1 2 show ?thesis
      by (simp only: j simp_thms)
  qed
qed

lemma abspath_parts:
  assumes "startswith cwd sep"
  shows "filter (\<lambda>x. x \<noteq> []) (split_sep (abspath cwd x)) =
           normpath_loop 1
             ((if startswith x sep then [] else path_components cwd) @ path_components x) []"
proof (cases "startswith x sep")
  case True
  then show ?thesis by (simp add: abspath_def normpath_parts)
next
  case False
  from join_relative [OF assms False] False show ?thesis
    by (simp add: abspath_def normpath_parts)
qed

lemma common_loop_same: "common_loop l l = Inr l"
  by (induction l) simp_all

lemma commonprefix_same: "commonprefix [l, l] = Inr l"
  by (simp add: commonprefix_def py_min_def py_max_def common_loop_same)

lemma relpath_same_path:
  assumes "startswith cwd sep" and "f \<noteq> []"
    and "startswith r sep = startswith f sep" and "path_components r = path_components f"
  shows "relpath cwd f (Some r) = Inr ''.''"
proof -
  have "filter (\<lambda>x. x \<noteq> []) (split_sep (abspath cwd r)) =
      filter (\<lambda>x. x \<noteq> []) (split_sep (abspath cwd f))"
    by (simp only: abspath_parts [OF assms(1)] assms(3,4))
  with assms(2) show ?thesis
    by (simp add: relpath_def Let_def commonprefix_same curdir_def)
qed

section \<open>The common path of the subject files\<close>

lemma longest_common_ancestor_from_prefix:
  assumes "files \<noteq> []" and "\<forall>f\<in>set files. (take 1 f = sep) = b"
    and "(take 1 r = sep) = b"
    and "greatest_common_prefix (path_components r) (path_components ` set files)"
  shows "longest_common_ancestor r files"
  unfolding longest_common_ancestor_def
proof (intro conjI ballI allI impI)
  fix f assume "f \<in> set files"
  with assms(2,3,4) show "is_ancestor r f"
    by (simp add: is_ancestor_def greatest_common_prefix_def)
next
  fix a assume a: "\<forall>f\<in>set files. is_ancestor a f"
  from assms(1) obtain f where f: "f \<in> set files" by (cases files) auto
  with a have "is_ancestor a f" by blast
  with f assms(2,3) have ab: "(take 1 a = sep) = (take 1 r = sep)"
    by (simp add: is_ancestor_def)
  from a have "\<forall>s\<in>path_components ` set files. prefix (path_components a) s"
    by (auto simp: is_ancestor_def)
  with assms(4) have "prefix (path_components a) (path_components r)"
    by (simp add: greatest_common_prefix_def)
  with ab show "is_ancestor a r"
    by (simp add: is_ancestor_def)
qed

lemma example_relpaths:
  "drive (WriteFilesCallback cwd)
     [(OnStart, empty_params\<lparr>subject_files :=
          Some [\<lparr>get_sequences = [(''t1'', ''/a/b/c.txt''), (''t2'', ''/a/b/d.txt'')],
                 get_gts = None\<rparr>],
        sequence_names := Some [''t1'', ''t2''], has_gt := Some False\<rparr>),
      (OnImageFile, empty_params\<lparr>file' := Some ''/a/b/c.txt'', subject_index := Some 0,
         sequence_index := Some 0\<rparr>),
      (OnImageFile, empty_params\<lparr>file' := Some ''/a/b/d.txt'', subject_index := Some 0,
         sequence_index := Some 1\<rparr>)]
     (WriteFilesCallback_init []) =
   Return \<lparr>writer =
       [Write ''meta/file_root'' (VStr ''/a/b'') (Some (dtype_name ''str'')),
        Reserve ''meta/sequence_files'' [1, 2] (dtype_name ''str''),
        Fill ''meta/sequence_files'' (VStr ''c.txt'') (IndexExpression [0, 0] (Some [0, 1])),
        Fill ''meta/sequence_files'' (VStr ''d.txt'') (IndexExpression [0, 1] (Some [0, 1]))],
     file_root = Some ''/a/b''\<rparr>"
  by code_simp

text \<open>
  Claim C5, as amended. For a non-empty collection of subjects, each with at least one
  file, whose paths are all absolute or all relative, \<^verbatim>\<open>_get_common_path\<close> returns the
  longest common ancestor of all sequence files and ground-truth files of all subjects,
  written with single separators. For the files \<^verbatim>\<open>/a/b/c.txt\<close> and \<^verbatim>\<open>/a/b/d.txt\<close> it returns
  \<^verbatim>\<open>/a/b\<close>, and \<^verbatim>\<open>on_image_file\<close> then fills the relative paths \<^verbatim>\<open>c.txt\<close> and \<^verbatim>\<open>d.txt\<close>,
  whatever the working directory.
\<close>

theorem get_common_path_longest_common_ancestor:
  "(sfs \<noteq> [] \<and> (\<forall>sf\<in>set sfs. all_files sf \<noteq> []) \<and>
    (\<forall>sf\<in>set sfs. \<forall>f\<in>set (all_files sf). (take 1 f = sep) = b) \<longrightarrow>
      (\<exists>root. get_common_path sfs = Inr root \<and> normal_path root \<and>
         longest_common_ancestor root (concat (map all_files sfs)))) \<and>
   get_common_path
     [\<lparr>get_sequences = [(''t1'', ''/a/b/c.txt''), (''t2'', ''/a/b/d.txt'')],
        get_gts = None\<rparr>] = Inr ''/a/b'' \<and>
   drive (WriteFilesCallback cwd)
     [(OnStart, empty_params\<lparr>subject_files :=
          Some [\<lparr>get_sequences = [(''t1'', ''/a/b/c.txt''), (''t2'', ''/a/b/d.txt'')],
                 get_gts = None\<rparr>],
        sequence_names := Some [''t1'', ''t2''], has_gt := Some False\<rparr>),
      (OnImageFile, empty_params\<lparr>file' := Some ''/a/b/c.txt'', subject_index := Some 0,
         sequence_index := Some 0\<rparr>),
      (OnImageFile, empty_params\<lparr>file' := Some ''/a/b/d.txt'', subject_index := Some 0,
         sequence_index := Some 1\<rparr>)]
     (WriteFilesCallback_init []) =
   Return \<lparr>writer =
       [Write ''meta/file_root'' (VStr ''/a/b'') (Some (dtype_name ''str'')),
        Reserve ''meta/sequence_files'' [1, 2] (dtype_name ''str''),
        Fill ''meta/sequence_files'' (VStr ''c.txt'') (IndexExpression [0, 0] (Some [0, 1])),
        Fill ''meta/sequence_files'' (VStr ''d.txt'') (IndexExpression [0, 1] (Some [0, 1]))],
     file_root = Some ''/a/b''\<rparr>"
proof (intro conjI impI)
  assume a: "sfs \<noteq> [] \<and> (\<forall>sf\<in>set sfs. all_files sf \<noteq> []) \<and>
    (\<forall>sf\<in>set sfs. \<forall>f\<in>set (all_files sf). (take 1 f = sep) = b)"
  then have ne: "sfs \<noteq> []" and files: "\<forall>sf\<in>set sfs. all_files sf \<noteq> []"
    and ab: "\<forall>sf\<in>set sfs. \<forall>f\<in>set (all_files sf). (take 1 f = sep) = b"
    by blast+
  from get_common_path_greatest [OF ne files ab]
  obtain r where r: "get_common_path sfs = Inr r" "normal_path r" "(take 1 r = sep) = b"
    "greatest_common_prefix (path_components r)
       (path_components ` (\<Union>sf\<in>set sfs. set (all_files sf)))"
    by blast
  from ne files have cne: "concat (map all_files sfs) \<noteq> []"
    by (cases sfs) auto
  have s: "set (concat (map all_files sfs)) = (\<Union>sf\<in>set sfs. set (all_files sf))"
    by simp
  have "longest_common_ancestor r (concat (map all_files sfs))"
  proof (rule longest_common_ancestor_from_prefix [OF cne _ r(3)])
    show "\<forall>f\<in>set (concat (map all_files sfs)). (take 1 f = sep) = b"
      using ab by auto
    show "greatest_common_prefix (path_components r)
        (path_components ` set (concat (map all_files sfs)))"
      using r(4) by (simp only: s)
  qed
  with r(1,2) show "\<exists>root. get_common_path sfs = Inr root \<and> normal_path root \<and>
         longest_common_ancestor root (concat (map all_files sfs))"
    by blast
next
  show "get_common_path
     [\<lparr>get_sequences = [(''t1'', ''/a/b/c.txt''), (''t2'', ''/a/b/d.txt'')],
        get_gts = None\<rparr>] = Inr ''/a/b''"
    by code_simp
next
  show "drive (WriteFilesCallback cwd)
     [(OnStart, empty_params\<lparr>subject_files :=
          Some [\<lparr>get_sequences = [(''t1'', ''/a/b/c.txt''), (''t2'', ''/a/b/d.txt'')],
                 get_gts = None\<rparr>],
        sequence_names := Some [''t1'', ''t2''], has_gt := Some False\<rparr>),
      (OnImageFile, empty_params\<lparr>file' := Some ''/a/b/c.txt'', subject_index := Some 0,
         sequence_index := Some 0\<rparr>),
      (OnImageFile, empty_params\<lparr>file' := Some ''/a/b/d.txt'', subject_index := Some 0,
         sequence_index := Some 1\<rparr>)]
     (WriteFilesCallback_init []) =
   Return \<lparr>writer =
       [Write ''meta/file_root'' (VStr ''/a/b'') (Some (dtype_name ''str'')),
        Reserve ''meta/sequence_files'' [1, 2] (dtype_name ''str''),
        Fill ''meta/sequence_files'' (VStr ''c.txt'') (IndexExpression [0, 0] (Some [0, 1])),
        Fill ''meta/sequence_files'' (VStr ''d.txt'') (IndexExpression [0, 1] (Some [0, 1]))],
     file_root = Some ''/a/b''\<rparr>"
    by (rule example_relpaths)
qed

theorem get_common_path_longest_common_ancestor_witness:
  "get_common_path
     [\<lparr>get_sequences = [(''t1'', ''/a/b/c.txt'')], get_gts = Some [(''g'', ''/a/b/g/x.txt'')]\<rparr>,
      \<lparr>get_sequences = [(''t1'', ''/a/b/d.txt'')], get_gts = None\<rparr>] = Inr ''/a/b'' \<and>
   longest_common_ancestor ''/a/b'' [''/a/b/c.txt'', ''/a/b/g/x.txt'', ''/a/b/d.txt'']"
proof -
  let ?S = "[\<lparr>get_sequences = [(''t1'', ''/a/b/c.txt'')], get_gts = Some [(''g'', ''/a/b/g/x.txt'')]\<rparr>,
      \<lparr>get_sequences = [(''t1'', ''/a/b/d.txt'')], get_gts = None\<rparr>]"
  have h: "?S \<noteq> [] \<and> (\<forall>sf\<in>set ?S. all_files sf \<noteq> []) \<and>
    (\<forall>sf\<in>set ?S. \<forall>f\<in>set (all_files sf). (take 1 f = sep) = True)"
    by (simp add: all_files_def sep_def)
  from get_common_path_longest_common_ancestor [where sfs = ?S and b = True] h
  obtain root where root: "get_common_path ?S = Inr root"
    "longest_common_ancestor root (concat (map all_files ?S))"
    by blast
  have v: "get_common_path ?S = Inr ''/a/b''"
    by code_simp
  have c: "concat (map all_files ?S) = [''/a/b/c.txt'', ''/a/b/g/x.txt'', ''/a/b/d.txt'']"
    by (simp add: all_files_def)
  from root v have "root = ''/a/b''" by simp
  with root(2) c v show ?thesis by simp
qed

text \<open>
  The claim as stated fails where \<^verbatim>\<open>commonpath\<close> raises: for a subject with an absolute
  and a relative path, and for a collection in which a subject has no file at all, even
  though the other subject has one.
\<close>

theorem get_common_path_longest_common_ancestor_counterexample:
  "get_common_path
     [\<lparr>get_sequences = [(''t1'', ''/a/b/c.txt''), (''t2'', ''d.txt'')], get_gts = None\<rparr>] =
   Inl (ValueError ''Can't mix absolute and relative paths'') \<and>
   get_common_path
     [\<lparr>get_sequences = [(''t1'', ''/a/b/c.txt'')], get_gts = None\<rparr>,
      \<lparr>get_sequences = [], get_gts = None\<rparr>] =
   Inl (ValueError ''commonpath() arg is an empty sequence'')"
  by code_simp

section \<open>A single file\<close>

lemma single_file_common_path:
  assumes "all_files sf = [f]"
  shows "get_common_path [sf] =
           Inr ((if take 1 f = sep then sep else []) @ join_sep (path_components f))"
proof -
  have ne: "[sf] \<noteq> []" by simp
  have files: "\<forall>s\<in>set [sf]. all_files s \<noteq> []"
    using assms by simp
  have ab: "\<forall>s\<in>set [sf]. \<forall>g\<in>set (all_files s). (take 1 g = sep) = (take 1 f = sep)"
    using assms by simp
  from get_common_path_greatest [OF ne files ab]
  obtain r where r: "get_common_path [sf] = Inr r" "normal_path r"
    "(take 1 r = sep) = (take 1 f = sep)"
    "greatest_common_prefix (path_components r)
       (path_components ` (\<Union>s\<in>set [sf]. set (all_files s)))"
    by blast
  from r(4) assms have g: "greatest_common_prefix (path_components r) {path_components f}"
    by simp
  then have "prefix (path_components r) (path_components f)"
    by (simp add: greatest_common_prefix_def)
  moreover from g have "prefix (path_components f) (path_components r)"
    by (simp add: greatest_common_prefix_def)
  ultimately have pc: "path_components r = path_components f"
    by (rule prefix_order.antisym)
  from r(2) have "r = (if take 1 r = sep then sep else []) @ join_sep (path_components r)"
    by (simp only: normal_path_def)
  with pc r(3) have "r = (if take 1 f = sep then sep else []) @ join_sep (path_components f)"
    by simp
  with r(1) show ?thesis by simp
qed

lemma rooted_same_path:
  "take 1 ((if take 1 f = sep then sep else []) @ join_sep (path_components f)) = sep
     \<longleftrightarrow> take 1 f = sep"
  "path_components ((if take 1 f = sep then sep else []) @ join_sep (path_components f)) =
     path_components f"
  using take1_rooted [of "path_components f" "take 1 f = sep"]
    path_components_rooted [of "path_components f" "take 1 f = sep"]
    path_components_clean [of _ f]
  by blast+

text \<open>
  Claim C10, as amended. For a collection of exactly one subject with exactly one
  sequence file, of non-empty path \<open>f\<close>, and no ground-truth file, \<^verbatim>\<open>on_start\<close> computes as
  file root the path of that file, not of its directory: the root is \<open>f\<close> written
  without empty and \<^verbatim>\<open>.\<close> components and with single separators, it has the components of
  \<open>f\<close>, and it is \<open>f\<close> itself when \<open>f\<close> is written that way. The \<^verbatim>\<open>on_image_file\<close> that
  follows for that file fills the relative path \<^verbatim>\<open>.\<close> into \<^verbatim>\<open>meta/sequence_files\<close> at cell
  (0, 0). The working directory \<open>cwd\<close> is an absolute path, as \<^verbatim>\<open>os.getcwd()\<close> returns it.
\<close>

theorem single_file_root_is_the_file:
  assumes "get_sequences sf = [(name, f)]" and "get_gts sf = None \<or> get_gts sf = Some []"
    and "f \<noteq> []" and "startswith cwd sep"
    and "subject_files p0 = Some [sf]" and "sequence_names p0 = Some names"
    and "has_gt p0 = Some False"
    and "file' p = Some f" and "subject_index p = Some 0" and "sequence_index p = Some 0"
  shows "\<exists>root.
      drive (WriteFilesCallback cwd) [(OnStart, p0), (OnImageFile, p)]
        (WriteFilesCallback_init []) =
      Return \<lparr>writer =
          [Write ''meta/file_root'' (VStr root) (Some (dtype_name ''str'')),
           Reserve ''meta/sequence_files'' [1, length names] (dtype_name ''str''),
           Fill ''meta/sequence_files'' (VStr ''.'') (IndexExpression [0, 0] (Some [0, 1]))],
        file_root = Some root\<rparr> \<and>
      root = (if take 1 f = sep then sep else []) @ join_sep (path_components f) \<and>
      is_ancestor root f \<and> is_ancestor f root \<and> (normal_path f \<longrightarrow> root = f)"
proof -
  define root where "root = (if take 1 f = sep then sep else []) @ join_sep (path_components f)"
  from assms(1,2) have af: "all_files sf = [f]"
    by (auto simp: all_files_def)
  have cp: "get_common_path [sf] = Inr root"
    unfolding root_def using af by (rule single_file_common_path)
  have same: "(take 1 root = sep) = (take 1 f = sep)" "path_components root = path_components f"
    unfolding root_def by (rule rooted_same_path)+
  have rp: "relpath cwd f (Some root) = Inr ''.''"
  proof (rule relpath_same_path)
    show "startswith cwd sep" by (rule assms(4))
    show "f \<noteq> []" by (rule assms(3))
    show "startswith root sep = startswith f sep"
      using same(1) by (simp only: startswith_sep)
    show "path_components root = path_components f" by (rule same(2))
  qed
  have start: "WriteFilesCallback_on_start p0 (WriteFilesCallback_init []) =
      Return \<lparr>writer =
          [Write ''meta/file_root'' (VStr root) (Some (dtype_name ''str'')),
           Reserve ''meta/sequence_files'' [1, length names] (dtype_name ''str'')],
        file_root = Some root\<rparr>"
    using assms(5,6,7) cp
    by (simp add: WriteFilesCallback_on_start_def WriteFilesCallback_init_def Let_def
        writer_write_def writer_reserve_def FILE_ROOT_def SEQ_FILES_def)
  have fill: "WriteFilesCallback_on_image_file cwd p
      \<lparr>writer =
          [Write ''meta/file_root'' (VStr root) (Some (dtype_name ''str'')),
           Reserve ''meta/sequence_files'' [1, length names] (dtype_name ''str'')],
        file_root = Some root\<rparr> =
      Return \<lparr>writer =
          [Write ''meta/file_root'' (VStr root) (Some (dtype_name ''str'')),
           Reserve ''meta/sequence_files'' [1, length names] (dtype_name ''str''),
           Fill ''meta/sequence_files'' (VStr ''.'') (IndexExpression [0, 0] (Some [0, 1]))],
        file_root = Some root\<rparr>"
    using assms(8,9,10) rp
    by (simp add: WriteFilesCallback_on_image_file_def writer_fill_def SEQ_FILES_def)
  have run: "drive (WriteFilesCallback cwd) [(OnStart, p0), (OnImageFile, p)]
        (WriteFilesCallback_init []) =
      Return \<lparr>writer =
          [Write ''meta/file_root'' (VStr root) (Some (dtype_name ''str'')),
           Reserve ''meta/sequence_files'' [1, length names] (dtype_name ''str''),
           Fill ''meta/sequence_files'' (VStr ''.'') (IndexExpression [0, 0] (Some [0, 1]))],
        file_root = Some root\<rparr>"
    using start fill by (simp add: call_def WriteFilesCallback_def Callback_def)
  have anc: "is_ancestor root f" "is_ancestor f root"
    using same by (simp_all add: is_ancestor_def)
  have nf: "normal_path f \<longrightarrow> root = f"
    unfolding root_def by (simp add: normal_path_def)
  from run anc nf root_def show ?thesis by blast
qed

theorem single_file_root_is_the_file_witness:
  "drive (WriteFilesCallback ''/home'')
     [(OnStart, empty_params\<lparr>subject_files :=
          Some [\<lparr>get_sequences = [(''t1'', ''/a/b/c.txt'')], get_gts = None\<rparr>],
        sequence_names := Some [''t1''], has_gt := Some False\<rparr>),
      (OnImageFile, empty_params\<lparr>file' := Some ''/a/b/c.txt'', subject_index := Some 0,
         sequence_index := Some 0\<rparr>)]
     (WriteFilesCallback_init []) =
   Return \<lparr>writer =
       [Write ''meta/file_root'' (VStr ''/a/b/c.txt'') (Some (dtype_name ''str'')),
        Reserve ''meta/sequence_files'' [1, 1] (dtype_name ''str''),
        Fill ''meta/sequence_files'' (VStr ''.'') (IndexExpression [0, 0] (Some [0, 1]))],
     file_root = Some ''/a/b/c.txt''\<rparr>"
proof -
  let ?sf = "\<lparr>get_sequences = [(''t1'', ''/a/b/c.txt'')], get_gts = None\<rparr>"
  let ?start = "empty_params\<lparr>subject_files :=
          Some [\<lparr>get_sequences = [(''t1'', ''/a/b/c.txt'')], get_gts = None\<rparr>],
        sequence_names := Some [''t1''], has_gt := Some False\<rparr>"
  let ?event = "empty_params\<lparr>file' := Some ''/a/b/c.txt'', subject_index := Some 0,
         sequence_index := Some 0\<rparr>"
  have n: "normal_path ''/a/b/c.txt''"
    by code_simp
  have c: "startswith ''/home'' sep"
    by code_simp
  have "\<exists>root.
      drive (WriteFilesCallback ''/home'') [(OnStart, ?start), (OnImageFile, ?event)]
        (WriteFilesCallback_init []) =
      Return \<lparr>writer =
          [Write ''meta/file_root'' (VStr root) (Some (dtype_name ''str'')),
           Reserve ''meta/sequence_files'' [1, length [''t1'']] (dtype_name ''str''),
           Fill ''meta/sequence_files'' (VStr ''.'') (IndexExpression [0, 0] (Some [0, 1]))],
        file_root = Some root\<rparr> \<and>
      root = (if take 1 ''/a/b/c.txt'' = sep then sep else []) @ join_sep (path_components ''/a/b/c.txt'') \<and>
      is_ancestor root ''/a/b/c.txt'' \<and> is_ancestor ''/a/b/c.txt'' root \<and>
      (normal_path ''/a/b/c.txt'' \<longrightarrow> root = ''/a/b/c.txt'')"
    by (rule single_file_root_is_the_file [where sf = ?sf and name = "''t1''" and f = "''/a/b/c.txt''"
          and cwd = "''/home''" and ?p0.0 = ?start and names = "[''t1'']" and p = ?event])
       (simp_all add: empty_params_def c)
  with n obtain root where
    "drive (WriteFilesCallback ''/home'') [(OnStart, ?start), (OnImageFile, ?event)]
        (WriteFilesCallback_init []) =
      Return \<lparr>writer =
          [Write ''meta/file_root'' (VStr root) (Some (dtype_name ''str'')),
           Reserve ''meta/sequence_files'' [1, length [''t1'']] (dtype_name ''str''),
           Fill ''meta/sequence_files'' (VStr ''.'') (IndexExpression [0, 0] (Some [0, 1]))],
        file_root = Some root\<rparr>"
    and "root = ''/a/b/c.txt''"
    by blast
  then show ?thesis
    by simp
qed

text \<open>
  The claim as stated fails for a path that is not written that way: the root computed
  for \<^verbatim>\<open>./data/scan.nii\<close> is \<^verbatim>\<open>data/scan.nii\<close>, not the path itself. For the empty path the
  root is empty and \<^verbatim>\<open>on_image_file\<close> raises instead of filling.
\<close>

theorem single_file_root_is_the_file_counterexample:
  "drive (WriteFilesCallback ''/home'')
     [(OnStart, empty_params\<lparr>subject_files :=
          Some [\<lparr>get_sequences = [(''t1'', ''./data/scan.nii'')], get_gts = None\<rparr>],
        sequence_names := Some [''t1''], has_gt := Some False\<rparr>),
      (OnImageFile, empty_params\<lparr>file' := Some ''./data/scan.nii'', subject_index := Some 0,
         sequence_index := Some 0\<rparr>)]
     (WriteFilesCallback_init []) =
   Return \<lparr>writer =
       [Write ''meta/file_root'' (VStr ''data/scan.nii'') (Some (dtype_name ''str'')),
        Reserve ''meta/sequence_files'' [1, 1] (dtype_name ''str''),
        Fill ''meta/sequence_files'' (VStr ''.'') (IndexExpression [0, 0] (Some [0, 1]))],
     file_root = Some ''data/scan.nii''\<rparr> \<and>
   ''data/scan.nii'' \<noteq> ''./data/scan.nii'' \<and>
   drive (WriteFilesCallback ''/home'')
     [(OnStart, empty_params\<lparr>subject_files :=
          Some [\<lparr>get_sequences = [(''t1'', [])], get_gts = None\<rparr>],
        sequence_names := Some [''t1''], has_gt := Some False\<rparr>),
      (OnImageFile, empty_params\<lparr>file' := Some [], subject_index := Some 0,
         sequence_index := Some 0\<rparr>)]
     (WriteFilesCallback_init []) =
   Raise (ValueError ''no path specified'') \<lparr>writer =
       [Write ''meta/file_root'' (VStr []) (Some (dtype_name ''str'')),
        Reserve ''meta/sequence_files'' [1, 1] (dtype_name ''str'')],
     file_root = Some []\<rparr>"
  by code_simp

end
